theory Spec2Isabelle
  imports Main "HOL-Library.Word"
begin

section \<open>Data model (src/types/index.ts)\<close>

text \<open>
  The TypeScript unions become datatypes and the interfaces become records. An optional
  field \<^verbatim>\<open>f?: string\<close> is a \<open>string option\<close>; a JavaScript \<^verbatim>\<open>number\<close> that
  is only compared or passed on is an \<open>int\<close>. Two interfaces of the source share field
  names; the fields of \<^verbatim>\<open>SingleState\<close> carry the prefix \<open>single_\<close> and those of
  \<^verbatim>\<open>BatchProgressEvent\<close> the prefix \<open>ev_\<close> (except \<open>result_data_url\<close>, which is
  unique already); \<^verbatim>\<open>ImageItem.id\<close> is \<open>item_id\<close>.
\<close>

datatype BackgroundColor = Transparent | White | Black | Color int int int

datatype ItemStatus = Pending | Processing | Done | Error

datatype AppMode = Idle | Single | Batch

record ImageItem =
  item_id :: string
  name :: string
  sourcePath :: "string option"
  sourceDataUrl :: "string option"
  status :: ItemStatus
  resultDataUrl :: "string option"
  error :: "string option"

record BatchProgressEvent =
  ev_index :: int
  ev_total :: int
  ev_name :: string
  result_data_url :: "string option"
  ev_error :: "string option"

record SingleState =
  single_sourceDataUrl :: string
  single_sourcePath :: string
  single_resultDataUrl :: string
  single_isProcessing :: bool

text \<open>The value held by \<^verbatim>\<open>singleSourceRef\<close>: \<^verbatim>\<open>{ path, dataUrl }\<close>.\<close>

record SourceRef =
  path :: string
  dataUrl :: string

section \<open>JavaScript string helpers used by the component\<close>

text \<open>
  \<^verbatim>\<open>error ? a : b\<close> and \<^verbatim>\<open>!item.resultDataUrl\<close> test truthiness: an optional string
  is truthy when it is present and not the empty string.
\<close>

definition truthy :: "string option \<Rightarrow> bool" where
  "truthy v = (case v of None \<Rightarrow> False | Some s \<Rightarrow> s \<noteq> [])"

text \<open>The character class \<^verbatim>\<open>[\\/]\<close>: a backslash (code 0x5C) or a slash.\<close>

definition is_sep :: "char \<Rightarrow> bool" where
  "is_sep c = (c = CHR 0x5C \<or> c = CHR ''/'')"

text \<open>
  \<^verbatim>\<open>p.split(/[\\/]/)\<close>: the segments between separators, in order. The result is
  never empty: a string without separator (the empty string too) gives one segment.
\<close>

fun split_seps :: "string \<Rightarrow> string list" where
  "split_seps [] = [[]]"
| "split_seps (c # cs) =
     (if is_sep c then [] # split_seps cs
      else (case split_seps cs of
              [] \<Rightarrow> [[c]]
            | seg # rest \<Rightarrow> (c # seg) # rest))"

text \<open>
  The final path segment in the words of the spec: the text after the last separator
  (the whole path when it has none).
\<close>

definition final_segment :: "string \<Rightarrow> string" where
  "final_segment p = rev (takeWhile (\<lambda>c. \<not> is_sep c) (rev p))"

text \<open>\<^verbatim>\<open>Array.prototype.pop\<close> as a value: the last element, \<^verbatim>\<open>undefined\<close> on \<open>[]\<close>.\<close>

definition pop :: "'a list \<Rightarrow> 'a option" where
  "pop xs = (if xs = [] then None else Some (last xs))"

text \<open>
  \<^verbatim>\<open>s.replace(/\.[^.]+$/, "")\<close>: the regular expression matches a dot followed by one
  or more characters other than a dot, up to the end of the input. Only the last dot of
  the string can start such a match, and only when it is not the last character. The
  match is removed; a string without match is returned as it is.
\<close>

definition replace_ext :: "string \<Rightarrow> string" where
  "replace_ext s =
     (let ext = takeWhile (\<lambda>c. c \<noteq> CHR ''.'') (rev s)
      in if ext \<noteq> [] \<and> length ext < length s
         then take (length s - length ext - 1) s
         else s)"

text \<open>
  \<^verbatim>\<open>toMsg(e)\<close> serialises whatever was thrown: a string as it is, an \<^verbatim>\<open>Error\<close> by
  its message, anything else by \<^verbatim>\<open>JSON.stringify\<close> (or \<^verbatim>\<open>String\<close>), whose text
  the third constructor carries.
\<close>

datatype thrown = ThrownString string | ThrownError string | ThrownOther string

fun toMsg :: "thrown \<Rightarrow> string" where
  "toMsg (ThrownString s) = s"
| "toMsg (ThrownError m) = m"
| "toMsg (ThrownOther j) = j"

section \<open>Component state (the hooks of \<^verbatim>\<open>App\<close>)\<close>

text \<open>
  The commands of the backend that the component invokes, with their arguments. The
  \<^verbatim>\<open>options\<close> argument is \<^verbatim>\<open>getOptions()\<close>, that is the current background.
\<close>

datatype command =
    ProcessSingleImage string BackgroundColor
  | ReprocessClipboardImage BackgroundColor
  | ProcessClipboardImage BackgroundColor
  | ProcessBatchImages "string list" BackgroundColor
  | SaveResultToFile string string

text \<open>
  The state of the component: the \<^verbatim>\<open>useState\<close> cells \<open>mode\<close>, \<open>single\<close>,
  \<open>batchItems\<close>, \<open>globalError\<close>, \<open>background\<close> and the \<^verbatim>\<open>useRef\<close> cells
  \<open>singleSourceRef\<close>, \<open>bgInitRef\<close>, \<open>batchUnlistenRef\<close>. A subscription returned by
  \<^verbatim>\<open>listen\<close> is a handle (a number); \<open>batchUnlistenRef\<close> holds the handle whose
  \<^verbatim>\<open>unlisten\<close> function is stored. The environment of the component is part of the
  state as well: \<open>listeners\<close> are the live subscriptions to \<^verbatim>\<open>"batch-progress"\<close>,
  \<open>nextHandle\<close> the next fresh handle, \<open>invoked\<close> the backend commands invoked so far,
  \<open>shown\<close> the messages passed to \<^verbatim>\<open>showError\<close> so far and \<open>saveDialogs\<close> the
  \<^verbatim>\<open>defaultPath\<close> of every save dialog opened so far. The cells \<^verbatim>\<open>isSavingBatch\<close>
  and \<^verbatim>\<open>modelError\<close> play no part in the operations below and are left out.
\<close>

record App =
  mode :: AppMode
  single :: "SingleState option"
  batchItems :: "ImageItem list"
  globalError :: "string option"
  background :: BackgroundColor
  singleSourceRef :: "SourceRef option"
  bgInitRef :: bool
  batchUnlistenRef :: "nat option"
  listeners :: "nat list"
  nextHandle :: nat
  invoked :: "command list"
  shown :: "string list"
  saveDialogs :: "string list"

definition initial :: App where
  "initial = \<lparr> mode = Idle, single = None, batchItems = [], globalError = None,
     background = Transparent, singleSourceRef = None, bgInitRef = True,
     batchUnlistenRef = None, listeners = [], nextHandle = 0, invoked = [], shown = [],
     saveDialogs = [] \<rparr>"

text \<open>\<^verbatim>\<open>showError\<close>: sets the toast (a timer clears it seven seconds later).\<close>

definition showError :: "string \<Rightarrow> App \<Rightarrow> App" where
  "showError msg s = s\<lparr> globalError := Some msg, shown := shown s @ [msg] \<rparr>"

definition showError_timeout :: "App \<Rightarrow> App" where
  "showError_timeout s = s\<lparr> globalError := None \<rparr>"

text \<open>\<^verbatim>\<open>invoke(cmd, args)\<close>: the call is recorded; its promise settles later.\<close>

definition invoke :: "command \<Rightarrow> App \<Rightarrow> App" where
  "invoke c s = s\<lparr> invoked := invoked s @ [c] \<rparr>"

text \<open>\<^verbatim>\<open>batchUnlistenRef.current?.()\<close>: removes the stored subscription, if any.\<close>

definition callUnlisten :: "App \<Rightarrow> App" where
  "callUnlisten s =
     (case batchUnlistenRef s of
        None \<Rightarrow> s
      | Some h \<Rightarrow> s\<lparr> listeners := removeAll h (listeners s) \<rparr>)"

section \<open>Single image and clipboard operations\<close>

text \<open>
  An \<^verbatim>\<open>async\<close> function runs up to its \<^verbatim>\<open>await\<close>, and its continuation runs when the
  awaited promise settles; other handlers may run in between. Each such function is
  therefore a \<open>_start\<close> part and a \<open>_settle\<close> part that takes the outcome of the promise
  (\<open>Inl e\<close>: rejected with \<open>e\<close>; \<open>Inr r\<close>: resolved with \<open>r\<close>). The function under the
  source's name is the two run one after the other, nothing in between.
\<close>

definition processSinglePath_start :: "string \<Rightarrow> string \<Rightarrow> App \<Rightarrow> App" where
  "processSinglePath_start p previewDataUrl s =
     invoke (ProcessSingleImage p (background s))
       (s\<lparr> singleSourceRef := Some \<lparr> path = p, dataUrl = previewDataUrl \<rparr>,
           mode := Single,
           single := Some \<lparr> single_sourceDataUrl = previewDataUrl, single_sourcePath = p,
                            single_resultDataUrl = [], single_isProcessing = True \<rparr> \<rparr>)"

definition processSinglePath_settle :: "thrown + string \<Rightarrow> App \<Rightarrow> App" where
  "processSinglePath_settle outcome s =
     (case outcome of
        Inr result \<Rightarrow>
          s\<lparr> single := map_option
                (\<lambda>prev. prev\<lparr> single_resultDataUrl := result, single_isProcessing := False \<rparr>)
                (single s) \<rparr>
      | Inl e \<Rightarrow>
          (let s' = showError (''Erreur de traitement : '' @ toMsg e) s
           in s'\<lparr> single := map_option (\<lambda>prev. prev\<lparr> single_isProcessing := False \<rparr>)
                              (single s') \<rparr>))"

definition processSinglePath :: "string \<Rightarrow> string \<Rightarrow> thrown + string \<Rightarrow> App \<Rightarrow> App" where
  "processSinglePath p previewDataUrl outcome s =
     processSinglePath_settle outcome (processSinglePath_start p previewDataUrl s)"

definition reprocessClipboard_start :: "App \<Rightarrow> App" where
  "reprocessClipboard_start s =
     invoke (ReprocessClipboardImage (background s))
       (s\<lparr> single := map_option (\<lambda>prev. prev\<lparr> single_isProcessing := True \<rparr>) (single s) \<rparr>)"

definition reprocessClipboard_settle :: "thrown + string \<Rightarrow> App \<Rightarrow> App" where
  "reprocessClipboard_settle outcome s =
     (case outcome of
        Inr result \<Rightarrow>
          s\<lparr> single := map_option
                (\<lambda>prev. prev\<lparr> single_resultDataUrl := result, single_isProcessing := False \<rparr>)
                (single s) \<rparr>
      | Inl e \<Rightarrow>
          (let s' = showError (''Erreur retraitement clipboard : '' @ toMsg e) s
           in s'\<lparr> single := map_option (\<lambda>prev. prev\<lparr> single_isProcessing := False \<rparr>)
                              (single s') \<rparr>))"

definition reprocessClipboard :: "thrown + string \<Rightarrow> App \<Rightarrow> App" where
  "reprocessClipboard outcome s = reprocessClipboard_settle outcome (reprocessClipboard_start s)"

definition processClipboard_start :: "App \<Rightarrow> App" where
  "processClipboard_start s =
     invoke (ProcessClipboardImage (background s))
       (s\<lparr> mode := Single,
           single := Some \<lparr> single_sourceDataUrl = [], single_sourcePath = [],
                            single_resultDataUrl = [], single_isProcessing = True \<rparr> \<rparr>)"

definition processClipboard_settle :: "thrown + string \<Rightarrow> App \<Rightarrow> App" where
  "processClipboard_settle outcome s =
     (case outcome of
        Inr result \<Rightarrow>
          s\<lparr> singleSourceRef := Some \<lparr> path = [], dataUrl = result \<rparr>,
              single := Some \<lparr> single_sourceDataUrl = result, single_sourcePath = [],
                               single_resultDataUrl = result, single_isProcessing = False \<rparr> \<rparr>
      | Inl e \<Rightarrow>
          (showError (''Erreur clipboard : '' @ toMsg e) s)\<lparr> mode := Idle, single := None \<rparr>)"

definition processClipboard :: "thrown + string \<Rightarrow> App \<Rightarrow> App" where
  "processClipboard outcome s = processClipboard_settle outcome (processClipboard_start s)"

text \<open>
  The effect on \<^verbatim>\<open>[background]\<close>. Its first run (at mount) only clears \<open>bgInitRef\<close>.
  The calls it makes are not awaited, so the effect is the \<open>_start\<close> part of the
  operation it triggers.
\<close>

definition backgroundEffect :: "App \<Rightarrow> App" where
  "backgroundEffect s =
     (if bgInitRef s then s\<lparr> bgInitRef := False \<rparr>
      else (case singleSourceRef s of
              None \<Rightarrow> s
            | Some src \<Rightarrow>
                if mode s = Single
                then (if path src = [] then reprocessClipboard_start s
                      else processSinglePath_start (path src) (dataUrl src) s)
                else s))"

text \<open>The user picks a background: \<^verbatim>\<open>setBackground\<close>, then the effect runs.\<close>

definition setBackground :: "BackgroundColor \<Rightarrow> App \<Rightarrow> App" where
  "setBackground bg s = backgroundEffect (s\<lparr> background := bg \<rparr>)"

text \<open>The component after its first render: the effect has run once.\<close>

definition mounted :: App where
  "mounted = backgroundEffect initial"

section \<open>Batch operations\<close>

text \<open>
  \<^verbatim>\<open>generateId\<close> (from \<^verbatim>\<open>@/lib/utils\<close>) is a parameter: \<open>gen k\<close> is what its
  call for the item at position \<open>k\<close> returns.
\<close>

definition newItem :: "(nat \<Rightarrow> string) \<Rightarrow> nat \<times> string \<Rightarrow> ImageItem" where
  "newItem gen kp =
     (case kp of (k, p) \<Rightarrow>
        \<lparr> item_id = gen k,
          name = (case pop (split_seps p) of None \<Rightarrow> p | Some seg \<Rightarrow> seg),
          sourcePath = Some p,
          sourceDataUrl = None,
          status = Pending,
          resultDataUrl = None,
          error = None \<rparr>)"

text \<open>
  \<^verbatim>\<open>listen("batch-progress", handler)\<close> registers the handler under a fresh handle when
  it is called: the subscription is live from then on, also while the promise of
  \<^verbatim>\<open>listen\<close> is still awaited.
\<close>

definition listen :: "App \<Rightarrow> App" where
  "listen s = s\<lparr> listeners := listeners s @ [nextHandle s], nextHandle := Suc (nextHandle s) \<rparr>"

text \<open>
  \<^verbatim>\<open>processBatch\<close> up to \<^verbatim>\<open>await listen(...)\<close>: the remembered single source is
  dropped, the items are built, the mode changes, the old subscription is removed and
  the new handler is registered. The handle of the new subscription is the value of
  \<open>nextHandle\<close> before the call.
\<close>

definition processBatch_start :: "string list \<Rightarrow> (nat \<Rightarrow> string) \<Rightarrow> App \<Rightarrow> App" where
  "processBatch_start paths gen s =
     listen
       (callUnlisten
          (s\<lparr> singleSourceRef := None,
              batchItems := map (newItem gen) (enumerate 0 paths),
              mode := Batch \<rparr>))"

text \<open>
  The handler given to \<^verbatim>\<open>listen\<close>:
  \<^verbatim>\<open>prev.map((item, i) => i === index ? { ...item, status: error ? "error" : "done",
  resultDataUrl: result_data_url, error } : item)\<close>.
\<close>

definition applyEvent :: "BatchProgressEvent \<Rightarrow> nat \<times> ImageItem \<Rightarrow> ImageItem" where
  "applyEvent ev ki =
     (case ki of (i, item) \<Rightarrow>
        if int i = ev_index ev
        then item\<lparr> status := (if truthy (ev_error ev) then Error else Done),
                   resultDataUrl := result_data_url ev,
                   error := ev_error ev \<rparr>
        else item)"

definition applyProgress :: "BatchProgressEvent \<Rightarrow> ImageItem list \<Rightarrow> ImageItem list" where
  "applyProgress ev prev = map (applyEvent ev) (enumerate 0 prev)"

definition batchProgressHandler :: "BatchProgressEvent \<Rightarrow> App \<Rightarrow> App" where
  "batchProgressHandler ev s = s\<lparr> batchItems := applyProgress ev (batchItems s) \<rparr>"

text \<open>
  The event bus delivers a \<^verbatim>\<open>"batch-progress"\<close> event to every live subscription;
  each of them runs the handler above. With no subscription the event is lost.
\<close>

definition deliver :: "BatchProgressEvent \<Rightarrow> App \<Rightarrow> App" where
  "deliver ev s = ((batchProgressHandler ev) ^^ length (listeners s)) s"

text \<open>
  The continuation after \<^verbatim>\<open>await listen(...)\<close>: the \<^verbatim>\<open>unlisten\<close> of the new
  subscription is stored, every item of the current list becomes \<open>Processing\<close> (the
  update spreads \<^verbatim>\<open>...item\<close> and so keeps every other field) and the backend command
  is invoked. \<open>paths\<close>, \<open>opts\<close> and the handle \<open>h\<close> of the subscription are the values
  the closure holds.
\<close>

definition processBatch_listened ::
  "string list \<Rightarrow> BackgroundColor \<Rightarrow> nat \<Rightarrow> App \<Rightarrow> App" where
  "processBatch_listened paths opts h s =
     invoke (ProcessBatchImages paths opts)
       (s\<lparr> batchUnlistenRef := Some h,
           batchItems := map (\<lambda>item. item\<lparr> status := Processing \<rparr>) (batchItems s) \<rparr>)"

text \<open>The \<^verbatim>\<open>invoke\<close> of the batch settles: only a rejection does anything.\<close>

definition processBatch_settle :: "thrown option \<Rightarrow> App \<Rightarrow> App" where
  "processBatch_settle outcome s =
     (case outcome of
        None \<Rightarrow> s
      | Some e \<Rightarrow> showError (''Erreur batch : '' @ toMsg e) s)"

text \<open>
  One call of \<^verbatim>\<open>processBatch\<close> with the progress events that arrive during it: the
  events \<open>early\<close> arrive while \<^verbatim>\<open>listen\<close> is awaited (the backend command of this
  call is not invoked yet, so these are events still reported for an earlier run), the
  events \<open>evs\<close> arrive after the continuation has run.
\<close>

definition processBatch_run ::
  "string list \<Rightarrow> (nat \<Rightarrow> string) \<Rightarrow> BatchProgressEvent list \<Rightarrow> BatchProgressEvent list \<Rightarrow>
   thrown option \<Rightarrow> App \<Rightarrow> App" where
  "processBatch_run paths gen early evs outcome s =
     processBatch_settle outcome
       (fold deliver evs
          (processBatch_listened paths (background s) (nextHandle s)
             (fold deliver early (processBatch_start paths gen s))))"

text \<open>\<^verbatim>\<open>processBatch\<close> when no event arrives while \<^verbatim>\<open>listen\<close> is awaited.\<close>

definition processBatch ::
  "string list \<Rightarrow> (nat \<Rightarrow> string) \<Rightarrow> BatchProgressEvent list \<Rightarrow> thrown option \<Rightarrow> App \<Rightarrow> App" where
  "processBatch paths gen evs outcome s = processBatch_run paths gen [] evs outcome s"

text \<open>
  \<^verbatim>\<open>handlePaths\<close>; \<^verbatim>\<open>convertFileSrc\<close> (Tauri) is the parameter \<open>conv\<close>. The two
  outcomes are those of the pipeline the list is routed to.
\<close>

definition handlePaths_start ::
  "(string \<Rightarrow> string) \<Rightarrow> (nat \<Rightarrow> string) \<Rightarrow> string list \<Rightarrow> App \<Rightarrow> App" where
  "handlePaths_start conv gen paths s =
     (if length paths = 1
      then processSinglePath_start (paths ! 0) (conv (paths ! 0)) s
      else processBatch_start paths gen s)"

definition handlePaths ::
  "(string \<Rightarrow> string) \<Rightarrow> (nat \<Rightarrow> string) \<Rightarrow> thrown + string \<Rightarrow>
   BatchProgressEvent list \<Rightarrow> thrown option \<Rightarrow> string list \<Rightarrow> App \<Rightarrow> App" where
  "handlePaths conv gen single_outcome evs batch_outcome paths s =
     (if length paths = 1
      then processSinglePath (paths ! 0) (conv (paths ! 0)) single_outcome s
      else processBatch paths gen evs batch_outcome s)"

definition handleReset :: "App \<Rightarrow> App" where
  "handleReset s =
     (callUnlisten s)\<lparr> singleSourceRef := None, mode := Idle, single := None,
                        batchItems := [] \<rparr>"

section \<open>Saving\<close>

text \<open>The prefix of the toast of a failed save; the two accented letters are UTF-8.\<close>

definition saveFailed :: string where
  "saveFailed = ''Sauvegarde '' @ [CHR 0xC3, CHR 0xA9] @ ''chou'' @ [CHR 0xC3, CHR 0xA9]
                @ ''e : ''"

text \<open>
  What follows the computation of the default path in both save handlers: the dialog
  opens with \<open>defaultPath\<close>; \<open>dlg\<close> is how its promise settles (\<open>Inr None\<close>: cancelled)
  and \<open>outcome\<close> how \<^verbatim>\<open>save_result_to_file\<close> settles when it is invoked.
\<close>

definition saveWithDialog ::
  "string \<Rightarrow> string \<Rightarrow> thrown + string option \<Rightarrow> thrown option \<Rightarrow> App \<Rightarrow> App" where
  "saveWithDialog defaultPath payload dlg outcome s =
     (let s1 = s\<lparr> saveDialogs := saveDialogs s @ [defaultPath] \<rparr>
      in case dlg of
           Inl e \<Rightarrow> showError (saveFailed @ toMsg e) s1
         | Inr dest \<Rightarrow>
             (case dest of
                None \<Rightarrow> s1
              | Some d \<Rightarrow>
                  if d = [] then s1
                  else (let s2 = invoke (SaveResultToFile payload d) s1
                        in case outcome of
                             None \<Rightarrow> s2
                           | Some e \<Rightarrow> showError (saveFailed @ toMsg e) s2)))"

definition handleSaveSingle :: "thrown + string option \<Rightarrow> thrown option \<Rightarrow> App \<Rightarrow> App" where
  "handleSaveSingle dlg outcome s =
     (case single s of
        None \<Rightarrow> s
      | Some st \<Rightarrow>
          if single_resultDataUrl st = [] then s
          else (let baseName =
                      (if single_sourcePath st \<noteq> []
                       then (case pop (split_seps (single_sourcePath st)) of
                               None \<Rightarrow> ''output''
                             | Some seg \<Rightarrow> replace_ext seg)
                       else ''output'')
                in saveWithDialog (baseName @ ''_nobg.png'') (single_resultDataUrl st)
                     dlg outcome s))"

definition handleSaveOne ::
  "ImageItem \<Rightarrow> thrown + string option \<Rightarrow> thrown option \<Rightarrow> App \<Rightarrow> App" where
  "handleSaveOne item dlg outcome s =
     (case resultDataUrl item of
        None \<Rightarrow> s
      | Some payload \<Rightarrow>
          if payload = [] then s
          else (let stem = replace_ext (name item)
                in saveWithDialog (stem @ ''_nobg.png'') payload dlg outcome s))"

section \<open>Sequences of handler runs\<close>

text \<open>
  What can happen to the component, one handler run at a time: a user action, the
  settling of a promise, or the arrival of a progress event.
\<close>

datatype action =
    SinglePathStart string string
  | SinglePathSettle "thrown + string"
  | ClipboardStart
  | ClipboardSettle "thrown + string"
  | ReprocessSettle "thrown + string"
  | BatchStart "string list" "nat \<Rightarrow> string"
  | BatchListened "string list" BackgroundColor nat
  | BatchSettle "thrown option"
  | Progress BatchProgressEvent
  | Reset
  | SetBackground BackgroundColor
  | ErrorTimeout

fun perform :: "action \<Rightarrow> App \<Rightarrow> App" where
  "perform (SinglePathStart p d) s = processSinglePath_start p d s"
| "perform (SinglePathSettle outcome) s = processSinglePath_settle outcome s"
| "perform ClipboardStart s = processClipboard_start s"
| "perform (ClipboardSettle outcome) s = processClipboard_settle outcome s"
| "perform (ReprocessSettle outcome) s = reprocessClipboard_settle outcome s"
| "perform (BatchStart paths gen) s = processBatch_start paths gen s"
| "perform (BatchListened paths opts h) s = processBatch_listened paths opts h s"
| "perform (BatchSettle outcome) s = processBatch_settle outcome s"
| "perform (Progress ev) s = deliver ev s"
| "perform Reset s = handleReset s"
| "perform (SetBackground bg) s = setBackground bg s"
| "perform ErrorTimeout s = showError_timeout s"

definition run :: "action list \<Rightarrow> App \<Rightarrow> App" where
  "run acts s = fold perform acts s"

section \<open>BackgroundCompositor\<close>

text \<open>
  Modelled from the spec: the compositor (spec section 4.1) runs in the backend, which
  is not among the sources; every definition of this section follows the words of the
  spec. The buffers: an RGBA pixel buffer and a single-channel mask of given width and
  height. A channel and a mask value are bytes, the mask byte \<open>m\<close> standing for the
  weight \<open>m / 255\<close>; the background spec is the \<open>BackgroundColor\<close> of the options.
\<close>

record Pixel =
  red :: "8 word"
  green :: "8 word"
  blue :: "8 word"
  alpha :: "8 word"

record PixelBuffer =
  width :: nat
  height :: nat
  pixels :: "Pixel list"

record MaskBuffer =
  mask_width :: nat
  mask_height :: nat
  mask_values :: "8 word list"

datatype CompositeError = DimensionMismatch

text \<open>
  Modelled from the spec: the blend of one channel (the backend's code is missing),
  \<open>mask * source_channel + (1 - mask) * background_channel\<close>, rounded half up to the
  nearest integer channel value.
\<close>

definition blend :: "8 word \<Rightarrow> 8 word \<Rightarrow> int \<Rightarrow> 8 word" where
  "blend m src bg =
     word_of_int ((2 * (uint m * uint src + (255 - uint m) * bg) + 255) div 510)"

text \<open>
  Modelled from the spec: the output on an opaque background (the backend's code is
  missing) blends each colour channel and is fully opaque.
\<close>

definition flatten :: "int \<Rightarrow> int \<Rightarrow> int \<Rightarrow> Pixel \<Rightarrow> 8 word \<Rightarrow> Pixel" where
  "flatten br bgr bb p m =
     \<lparr> red = blend m (red p) br, green = blend m (green p) bgr,
       blue = blend m (blue p) bb, alpha = 255 \<rparr>"

text \<open>
  Modelled from the spec: one pixel under each background spec (the backend's code is
  missing). \<open>Transparent\<close>: the alpha is the mask value and the colours are unchanged.
  \<open>White\<close>, \<open>Black\<close>, \<open>Color\<close>: the blend against 255, 0 or the given channels.
\<close>

fun compositePixel :: "BackgroundColor \<Rightarrow> Pixel \<Rightarrow> 8 word \<Rightarrow> Pixel" where
  "compositePixel Transparent p m = p\<lparr> alpha := m \<rparr>"
| "compositePixel White p m = flatten 255 255 255 p m"
| "compositePixel Black p m = flatten 0 0 0 p m"
| "compositePixel (Color cr cg cb) p m = flatten cr cg cb p m"

text \<open>
  Modelled from the spec: \<open>composite\<close> (the backend's code is missing) fails only if
  the dimensions of mask and pixels differ, and composites pixel by pixel otherwise.
\<close>

definition composite ::
  "PixelBuffer \<Rightarrow> MaskBuffer \<Rightarrow> BackgroundColor \<Rightarrow> CompositeError + PixelBuffer" where
  "composite buf msk spec =
     (if width buf \<noteq> mask_width msk \<or> height buf \<noteq> mask_height msk
      then Inl DimensionMismatch
      else Inr (buf\<lparr> pixels := map2 (compositePixel spec) (pixels buf) (mask_values msk) \<rparr>))"

text \<open>A buffer of \<open>width \<times> height\<close> holds that many values.\<close>

definition wf_pixels :: "PixelBuffer \<Rightarrow> bool" where
  "wf_pixels buf = (length (pixels buf) = width buf * height buf)"

definition wf_mask :: "MaskBuffer \<Rightarrow> bool" where
  "wf_mask msk = (length (mask_values msk) = mask_width msk * mask_height msk)"

section \<open>ClipboardImageSession\<close>

text \<open>
  Modelled from the spec: the backend commands \<^verbatim>\<open>process_clipboard_image\<close> and
  \<^verbatim>\<open>reprocess_clipboard_image\<close> are not among the sources; every definition of this
  section follows the words of spec section 4.3. The errors are those of spec section 7
  that a clipboard operation can give.
\<close>

datatype CoreError =
  UnreadableSource | InferenceFailure | EncodeFailure | NoClipboardImage | NoActiveSession

text \<open>
  Modelled from the spec: the external collaborators of a session (their code is
  missing): the image on the system clipboard, decoded, if there is one; the inference
  service; the encoder of the codec.
\<close>

record Collaborators =
  clipboardImage :: "PixelBuffer option"
  inferMask :: "PixelBuffer \<Rightarrow> MaskBuffer option"
  encodeImage :: "PixelBuffer \<Rightarrow> string option"

text \<open>
  Modelled from the spec: the session (its code is missing) holds the one cached
  decoded bitmap; \<open>clipboardReads\<close> counts the reads of the system clipboard so far.
\<close>

record ClipboardImageSession =
  cached :: "PixelBuffer option"
  clipboardReads :: nat

text \<open>
  Modelled from the spec: the steps infer, composite, encode on a decoded bitmap (the
  backend's code is missing). A dimension mismatch in the compositor surfaces as an
  inference error.
\<close>

definition inferCompositeEncode ::
  "Collaborators \<Rightarrow> PixelBuffer \<Rightarrow> BackgroundColor \<Rightarrow> CoreError + string" where
  "inferCompositeEncode env img bg =
     (case inferMask env img of
        None \<Rightarrow> Inl InferenceFailure
      | Some msk \<Rightarrow>
          (case composite img msk bg of
             Inl e \<Rightarrow> Inl InferenceFailure
           | Inr out \<Rightarrow>
               (case encodeImage env out of
                  None \<Rightarrow> Inl EncodeFailure
                | Some payload \<Rightarrow> Inr payload)))"

text \<open>
  Modelled from the spec: \<open>captureAndProcess\<close> (the backend's code is missing) reads the
  current clipboard image, stores the decoded buffer, runs the steps on it and returns
  the result; it fails with \<open>NoClipboardImage\<close> if the clipboard holds no image.
\<close>

definition captureAndProcess ::
  "Collaborators \<Rightarrow> BackgroundColor \<Rightarrow> ClipboardImageSession \<Rightarrow>
   (CoreError + string) \<times> ClipboardImageSession" where
  "captureAndProcess env bg sess =
     (let sess1 = sess\<lparr> clipboardReads := Suc (clipboardReads sess) \<rparr>
      in case clipboardImage env of
           None \<Rightarrow> (Inl NoClipboardImage, sess1)
         | Some img \<Rightarrow> (inferCompositeEncode env img bg, sess1\<lparr> cached := Some img \<rparr>))"

text \<open>
  Modelled from the spec: \<open>reprocess\<close> (the backend's code is missing) re-runs the steps
  against the cached buffer without touching the clipboard; it fails with
  \<open>NoActiveSession\<close> if no capture has occurred yet.
\<close>

definition reprocess ::
  "Collaborators \<Rightarrow> BackgroundColor \<Rightarrow> ClipboardImageSession \<Rightarrow>
   (CoreError + string) \<times> ClipboardImageSession" where
  "reprocess env bg sess =
     (case cached sess of
        None \<Rightarrow> (Inl NoActiveSession, sess)
      | Some img \<Rightarrow> (inferCompositeEncode env img bg, sess))"

text \<open>
  Modelled from the spec: what the backend does (its code is missing) for the two
  clipboard commands the component invokes: \<^verbatim>\<open>process_clipboard_image\<close> is the capture,
  \<^verbatim>\<open>reprocess_clipboard_image\<close> the reprocess. Other commands are not clipboard
  commands.
\<close>

definition clipboardCommand ::
  "Collaborators \<Rightarrow> command \<Rightarrow> ClipboardImageSession \<Rightarrow>
   ((CoreError + string) \<times> ClipboardImageSession) option" where
  "clipboardCommand env c sess =
     (case c of
        ProcessClipboardImage bg \<Rightarrow> Some (captureAndProcess env bg sess)
      | ReprocessClipboardImage bg \<Rightarrow> Some (reprocess env bg sess)
      | ProcessSingleImage p bg \<Rightarrow> None
      | ProcessBatchImages ps bg \<Rightarrow> None
      | SaveResultToFile d f \<Rightarrow> None)"

section \<open>Predicates used in the statements\<close>

text \<open>
  A progress event as the spec describes it: it carries either a result payload and no
  error, or an error with a message and no result payload.
\<close>

definition wf_event :: "BatchProgressEvent \<Rightarrow> bool" where
  "wf_event ev =
     (case result_data_url ev of
        Some r \<Rightarrow> ev_error ev = None
      | None \<Rightarrow> (case ev_error ev of None \<Rightarrow> False | Some e \<Rightarrow> e \<noteq> []))"

text \<open>
  The invariant of the spec on the optional fields of an item: the result payload is
  present exactly when the item is \<open>Done\<close>, the error exactly when it is \<open>Error\<close>.
\<close>

definition fields_match_status :: "ImageItem \<Rightarrow> bool" where
  "fields_match_status item =
     ((resultDataUrl item \<noteq> None) = (status item = Done)
      \<and> (error item \<noteq> None) = (status item = Error))"

text \<open>The terminal statuses of the state machine of an item.\<close>

fun terminal :: "ItemStatus \<Rightarrow> bool" where
  "terminal Pending = False"
| "terminal Processing = False"
| "terminal Done = True"
| "terminal Error = True"

text \<open>
  The handler runs that replace the item list or set the status of all its items: a
  batch submission, the continuation of one after \<^verbatim>\<open>listen\<close>, and a reset.
\<close>

fun batch_list_op :: "action \<Rightarrow> bool" where
  "batch_list_op (BatchStart paths gen) = True"
| "batch_list_op (BatchListened paths opts h) = True"
| "batch_list_op Reset = True"
| "batch_list_op (SinglePathStart p d) = False"
| "batch_list_op (SinglePathSettle outcome) = False"
| "batch_list_op ClipboardStart = False"
| "batch_list_op (ClipboardSettle outcome) = False"
| "batch_list_op (ReprocessSettle outcome) = False"
| "batch_list_op (BatchSettle outcome) = False"
| "batch_list_op (Progress ev) = False"
| "batch_list_op (SetBackground bg) = False"
| "batch_list_op ErrorTimeout = False"

text \<open>The only live subscription, if any, is the one whose handle is stored.\<close>

definition stored_subscription_only :: "App \<Rightarrow> bool" where
  "stored_subscription_only s = (set (listeners s) \<subseteq> set_option (batchUnlistenRef s))"

text \<open>Identifiers for the examples below.\<close>

definition exampleId :: "nat \<Rightarrow> string" where
  "exampleId k = replicate (Suc k) (CHR ''i'')"

text \<open>A bitmap of one pixel and collaborators that always succeed, for the examples.\<close>

definition exampleImage :: PixelBuffer where
  "exampleImage =
     \<lparr> width = 1, height = 1,
       pixels = [\<lparr> red = 10, green = 20, blue = 30, alpha = 255 \<rparr>] \<rparr>"

definition exampleCollaborators :: Collaborators where
  "exampleCollaborators =
     \<lparr> clipboardImage = Some exampleImage,
       inferMask = (\<lambda>img. Some \<lparr> mask_width = width img, mask_height = height img,
                                  mask_values = map (\<lambda>p. 255) (pixels img) \<rparr>),
       encodeImage = (\<lambda>img. Some ''data:r'') \<rparr>"

section \<open>Facts about the helpers\<close>

text \<open>The definitions to unfold when a concrete run is evaluated.\<close>

lemmas app_defs =
  mounted_def initial_def backgroundEffect_def setBackground_def showError_def
  showError_timeout_def invoke_def callUnlisten_def
  processSinglePath_def processSinglePath_start_def processSinglePath_settle_def
  reprocessClipboard_def reprocessClipboard_start_def reprocessClipboard_settle_def
  processClipboard_def processClipboard_start_def processClipboard_settle_def
  processBatch_def processBatch_run_def processBatch_start_def listen_def
  processBatch_listened_def processBatch_settle_def
  newItem_def pop_def applyEvent_def applyProgress_def batchProgressHandler_def deliver_def
  handlePaths_def handlePaths_start_def handleReset_def
  saveWithDialog_def handleSaveSingle_def handleSaveOne_def run_def truthy_def
  final_segment_def is_sep_def replace_ext_def

lemma split_seps_ne: "split_seps p \<noteq> []"
  by (induction p) (auto split: list.splits)

lemma split_seps_nosep: "\<forall>c\<in>set p. \<not> is_sep c \<Longrightarrow> split_seps p = [p]"
  by (induction p) (auto split: list.splits)

lemma split_seps_append:
  "is_sep c \<Longrightarrow> split_seps (pre @ c # rest) = split_seps pre @ split_seps rest"
proof (induction pre)
  case Nil
  then show ?case by simp
next
  case (Cons a pre)
  obtain seg r where sp: "split_seps pre = seg # r"
    using split_seps_ne [of pre] by (cases "split_seps pre") auto
  show ?case using Cons sp by simp
qed

lemma last_split_seps: "last (split_seps p) = final_segment p"
proof (cases "\<exists>c\<in>set p. is_sep c")
  case False
  then have tw: "takeWhile (\<lambda>c. \<not> is_sep c) (rev p) = rev p"
    by (auto simp: takeWhile_eq_all_conv)
  from False show ?thesis
    by (simp add: final_segment_def tw split_seps_nosep)
next
  case True
  then obtain pre c seg where p: "p = pre @ c # seg" and c: "is_sep c"
    and seg: "\<forall>d\<in>set seg. \<not> is_sep d"
    using split_list_last_prop [of p is_sep] by blast
  have tw: "takeWhile (\<lambda>c. \<not> is_sep c) (rev p) = rev seg"
    using c seg by (auto simp: p takeWhile_tail)
  have "split_seps p = split_seps pre @ [seg]"
    using c seg by (simp add: p split_seps_append split_seps_nosep)
  then show ?thesis
    by (simp add: final_segment_def tw)
qed

lemma pop_split_seps: "pop (split_seps p) = Some (final_segment p)"
  by (simp add: pop_def split_seps_ne last_split_seps)

lemma name_newItem: "name (newItem gen (k, p)) = final_segment p"
  by (simp add: newItem_def pop_split_seps)

lemma replace_ext_strip:
  "ext \<noteq> [] \<Longrightarrow> CHR ''.'' \<notin> set ext \<Longrightarrow> replace_ext (stem @ CHR ''.'' # ext) = stem"
proof -
  assume ne: "ext \<noteq> []" and nd: "CHR ''.'' \<notin> set ext"
  have tw: "takeWhile (\<lambda>c. c \<noteq> CHR ''.'') (rev (stem @ CHR ''.'' # ext)) = rev ext"
    using nd by (auto simp: takeWhile_tail) 
  show ?thesis
    unfolding replace_ext_def tw Let_def using ne by simp
qed

lemma replace_ext_nodot:
  "CHR ''.'' \<notin> set s \<Longrightarrow> replace_ext s = s"
proof -
  assume nd: "CHR ''.'' \<notin> set s"
  have tw: "takeWhile (\<lambda>c. c \<noteq> CHR ''.'') (rev s) = rev s"
    using nd by (auto simp: takeWhile_eq_all_conv)
  show ?thesis unfolding replace_ext_def tw Let_def by simp
qed

lemma replace_ext_trailing_dot:
  "replace_ext (s @ ''.'') = s @ ''.''"
  by (simp add: replace_ext_def)

lemma length_applyProgress [simp]: "length (applyProgress ev items) = length items"
  by (simp add: applyProgress_def)

lemma nth_applyProgress:
  "j < length items \<Longrightarrow> applyProgress ev items ! j = applyEvent ev (j, items ! j)"
  by (simp add: applyProgress_def nth_enumerate_eq)

lemma applyProgress_idem: "applyProgress ev (applyProgress ev items) = applyProgress ev items"
  by (rule nth_equalityI) (auto simp: nth_applyProgress applyEvent_def)

lemma funpow_handler:
  "(batchProgressHandler ev ^^ n) s = (if n = 0 then s else batchProgressHandler ev s)"
proof (induction n)
  case 0
  then show ?case by simp
next
  case (Suc n)
  then show ?case
    by (simp add: batchProgressHandler_def applyProgress_idem)
qed

lemma deliver_eq:
  "deliver ev s = (if listeners s = [] then s else batchProgressHandler ev s)"
  by (simp add: deliver_def funpow_handler)


lemma batchItems_start:
  "batchItems (processBatch_start paths gen s) = map (newItem gen) (enumerate 0 paths)"
  by (simp add: processBatch_start_def listen_def callUnlisten_def split: option.splits)

lemma invoked_start: "invoked (processBatch_start paths gen s) = invoked s"
  by (simp add: processBatch_start_def listen_def callUnlisten_def split: option.splits)

lemma listeners_start: "listeners (processBatch_start paths gen s) \<noteq> []"
  by (simp add: processBatch_start_def listen_def)

lemma batchItems_listened:
  "batchItems (processBatch_listened paths opts h s) =
     map (\<lambda>item. item\<lparr> status := Processing \<rparr>) (batchItems s)"
  by (simp add: processBatch_listened_def invoke_def)

lemma invoked_listened:
  "invoked (processBatch_listened paths opts h s) = invoked s @ [ProcessBatchImages paths opts]"
  by (simp add: processBatch_listened_def invoke_def)

lemma invoked_deliver: "invoked (deliver ev s) = invoked s"
  by (simp add: deliver_eq batchProgressHandler_def)

lemma invoked_fold_deliver: "invoked (fold deliver evs s) = invoked s"
  by (induction evs arbitrary: s) (simp_all add: invoked_deliver)

lemma invoked_batch_settle: "invoked (processBatch_settle outcome s) = invoked s"
  by (simp add: processBatch_settle_def showError_def split: option.splits)

lemma batchItems_batch_settle: "batchItems (processBatch_settle outcome s) = batchItems s"
  by (simp add: processBatch_settle_def showError_def split: option.splits)

lemma map_newItem_status:
  "map status (map (newItem gen) (enumerate n paths)) = replicate (length paths) Pending"
  by (induction paths arbitrary: n) (simp_all add: newItem_def)

lemma map_newItem_name:
  "map name (map (newItem gen) (enumerate n paths)) = map final_segment paths"
  by (induction paths arbitrary: n) (simp_all add: name_newItem)

lemma map_newItem_sourcePath:
  "map sourcePath (map (newItem gen) (enumerate n paths)) = map Some paths"
  by (induction paths arbitrary: n) (simp_all add: newItem_def)

lemma map_status_processing:
  "map status (map (\<lambda>item. item\<lparr> status := Processing \<rparr>) items) =
     replicate (length items) Processing"
  by (induction items) simp_all


lemma listeners_deliver: "listeners (deliver ev s) = listeners s"
  by (simp add: deliver_eq batchProgressHandler_def)

lemma batchItems_deliver:
  "listeners s \<noteq> [] \<Longrightarrow> batchItems (deliver ev s) = applyProgress ev (batchItems s)"
  by (simp add: deliver_eq batchProgressHandler_def)

lemma batchItems_fold_deliver:
  "listeners s \<noteq> [] \<Longrightarrow>
     batchItems (fold deliver evs s) = fold applyProgress evs (batchItems s)"
  by (induction evs arbitrary: s) (simp_all add: listeners_deliver batchItems_deliver)

lemma listeners_listened: "listeners (processBatch_listened paths opts h s) = listeners s"
  by (simp add: processBatch_listened_def invoke_def)

lemma listeners_fold_deliver: "listeners (fold deliver evs s) = listeners s"
  by (induction evs arbitrary: s) (simp_all add: listeners_deliver)

lemma batchItems_processBatch_run:
  "batchItems (processBatch_run paths gen early evs outcome s) =
     fold applyProgress evs
       (map (\<lambda>item. item\<lparr> status := Processing \<rparr>)
          (fold applyProgress early (map (newItem gen) (enumerate 0 paths))))"
  by (simp add: processBatch_run_def batchItems_batch_settle batchItems_fold_deliver
      listeners_listened listeners_fold_deliver listeners_start batchItems_listened
      batchItems_start)

lemma invoked_processBatch_run:
  "invoked (processBatch_run paths gen early evs outcome s) =
     invoked s @ [ProcessBatchImages paths (background s)]"
  by (simp add: processBatch_run_def invoked_batch_settle invoked_fold_deliver invoked_listened
      invoked_start)

lemma saveDialogs_saveWithDialog:
  "saveDialogs (saveWithDialog defaultPath payload dlg outcome s) = saveDialogs s @ [defaultPath]"
  by (simp add: saveWithDialog_def Let_def showError_def invoke_def
      split: sum.splits option.splits)

lemma invoked_single_settle: "invoked (processSinglePath_settle outcome s) = invoked s"
  by (simp add: processSinglePath_settle_def showError_def Let_def split: sum.splits)

lemma invoked_single_start:
  "invoked (processSinglePath_start p d s) = invoked s @ [ProcessSingleImage p (background s)]"
  by (simp add: processSinglePath_start_def invoke_def)

lemma invoked_processBatch:
  "invoked (processBatch paths gen evs outcome s) =
     invoked s @ [ProcessBatchImages paths (background s)]"
  by (simp add: processBatch_def invoked_processBatch_run)

lemma batchItems_processBatch:
  "batchItems (processBatch paths gen evs outcome s) =
     fold applyProgress evs
       (map (\<lambda>item. item\<lparr> status := Processing \<rparr>) (map (newItem gen) (enumerate 0 paths)))"
  by (simp add: processBatch_def batchItems_processBatch_run)

lemma length_fold_applyProgress [simp]:
  "length (fold applyProgress evs items) = length items"
  by (induction evs arbitrary: items) simp_all

lemma nth_created:
  "j < length paths \<Longrightarrow> batchItems (processBatch_start paths gen s) ! j = newItem gen (j, paths ! j)"
  by (simp add: batchItems_start nth_enumerate_eq)

lemma name_applyEvent: "name (applyEvent ev (i, item)) = name item"
  by (simp add: applyEvent_def)

lemma map_name_applyProgress: "map name (applyProgress ev items) = map name items"
  by (rule nth_equalityI) (simp_all add: nth_applyProgress name_applyEvent)

lemma map_name_fold: "map name (fold applyProgress evs items) = map name items"
  by (induction evs arbitrary: items) (simp_all add: map_name_applyProgress)

lemma map_sourcePath_applyProgress:
  "map sourcePath (applyProgress ev items) = map sourcePath items"
  by (rule nth_equalityI) (simp_all add: nth_applyProgress applyEvent_def)

lemma map_sourcePath_fold: "map sourcePath (fold applyProgress evs items) = map sourcePath items"
  by (induction evs arbitrary: items) (simp_all add: map_sourcePath_applyProgress)

lemma map_name_dispatched:
  "map name (map (\<lambda>item. item\<lparr> status := Processing \<rparr>) xs) = map name xs"
  by (induction xs) simp_all

lemma map_sourcePath_dispatched:
  "map sourcePath (map (\<lambda>item. item\<lparr> status := Processing \<rparr>) xs) = map sourcePath xs"
  by (induction xs) simp_all

lemma nth_applyProgress_other:
  "j < length items \<Longrightarrow> ev_index ev \<noteq> int j \<Longrightarrow> applyProgress ev items ! j = items ! j"
  by (auto simp: nth_applyProgress applyEvent_def)

lemma nth_fold_other:
  "j < length items \<Longrightarrow> \<forall>e\<in>set evs. ev_index e \<noteq> int j \<Longrightarrow>
     fold applyProgress evs items ! j = items ! j"
  by (induction evs arbitrary: items) (simp_all add: nth_applyProgress_other)

lemma batchItems_early:
  "batchItems (fold deliver early (processBatch_start paths gen s)) =
     fold applyProgress early (map (newItem gen) (enumerate 0 paths))"
  by (simp add: batchItems_fold_deliver listeners_start batchItems_start)

section \<open>Batch submission\<close>

text \<open>
  C1, as the code has it. For a submitted list of \<open>N\<close> paths, \<^verbatim>\<open>processBatch\<close> builds
  \<open>N\<close> items in submission order (the item at position \<open>k\<close> has the \<open>k\<close>-th path as its
  source), each \<open>Pending\<close> and named by the final segment of its path, the text after
  the last slash or backslash. The new subscription is live from that point, and the
  backend command of this submission is not invoked yet: the progress events \<open>early\<close>
  that arrive while \<^verbatim>\<open>listen\<close> is awaited, which an earlier run still reports, are
  applied to the new items, and invoke nothing. When \<^verbatim>\<open>listen\<close> has resolved, one
  update turns every item of the list to \<open>Processing\<close> and changes nothing else of it,
  and only then is the batch command invoked; the events that arrive afterwards are
  applied, in their order of arrival, to that list of \<open>Processing\<close> items.
\<close>

theorem processBatch_builds_items:
  "map sourcePath (batchItems (processBatch_start paths gen s)) = map Some paths
   \<and> map status (batchItems (processBatch_start paths gen s)) = replicate (length paths) Pending
   \<and> map name (batchItems (processBatch_start paths gen s)) = map final_segment paths
   \<and> invoked (processBatch_start paths gen s) = invoked s
   \<and> invoked (fold deliver early (processBatch_start paths gen s)) = invoked s
   \<and> batchItems (fold deliver early (processBatch_start paths gen s)) =
       fold applyProgress early (batchItems (processBatch_start paths gen s))
   \<and> batchItems (processBatch_listened paths opts h t) =
       map (\<lambda>item. item\<lparr> status := Processing \<rparr>) (batchItems t)
   \<and> map status (batchItems (processBatch_listened paths opts h
         (fold deliver early (processBatch_start paths gen s)))) =
       replicate (length paths) Processing
   \<and> map sourcePath (batchItems (processBatch_listened paths opts h
         (fold deliver early (processBatch_start paths gen s)))) = map Some paths
   \<and> map name (batchItems (processBatch_listened paths opts h
         (fold deliver early (processBatch_start paths gen s)))) = map final_segment paths
   \<and> invoked (processBatch_listened paths opts h
         (fold deliver early (processBatch_start paths gen s))) =
       invoked s @ [ProcessBatchImages paths opts]
   \<and> batchItems (processBatch_run paths gen early evs outcome s) =
       fold applyProgress evs
         (batchItems (processBatch_listened paths (background s) (nextHandle s)
            (fold deliver early (processBatch_start paths gen s))))"
proof -
  let ?start = "processBatch_start paths gen s"
  let ?created = "map (newItem gen) (enumerate 0 paths)"
  let ?before = "fold deliver early ?start"
  have a: "map sourcePath (batchItems ?start) = map Some paths"
    by (simp only: batchItems_start map_newItem_sourcePath)
  have b: "map status (batchItems ?start) = replicate (length paths) Pending"
    by (simp only: batchItems_start map_newItem_status)
  have c: "map name (batchItems ?start) = map final_segment paths"
    by (simp only: batchItems_start map_newItem_name)
  have d: "invoked ?start = invoked s"
    by (rule invoked_start)
  have e: "invoked ?before = invoked s"
    by (simp only: invoked_fold_deliver invoked_start)
  have f: "batchItems ?before = fold applyProgress early (batchItems ?start)"
    by (simp only: batchItems_early batchItems_start)
  have g: "batchItems (processBatch_listened paths opts h t) =
      map (\<lambda>item. item\<lparr> status := Processing \<rparr>) (batchItems t)"
    by (rule batchItems_listened)
  have len: "length (fold applyProgress early ?created) = length paths"
    by simp
  have i: "map status (batchItems (processBatch_listened paths opts h ?before)) =
      replicate (length paths) Processing"
    by (simp only: batchItems_listened batchItems_early map_status_processing len)
  have j: "map sourcePath (batchItems (processBatch_listened paths opts h ?before)) =
      map Some paths"
    by (simp only: batchItems_listened batchItems_early map_sourcePath_dispatched
        map_sourcePath_fold map_newItem_sourcePath)
  have k: "map name (batchItems (processBatch_listened paths opts h ?before)) =
      map final_segment paths"
    by (simp only: batchItems_listened batchItems_early map_name_dispatched map_name_fold
        map_newItem_name)
  have l: "invoked (processBatch_listened paths opts h ?before) =
      invoked s @ [ProcessBatchImages paths opts]"
    by (simp only: invoked_listened invoked_fold_deliver invoked_start)
  have m: "batchItems (processBatch_run paths gen early evs outcome s) =
      fold applyProgress evs
        (batchItems (processBatch_listened paths (background s) (nextHandle s) ?before))"
    by (simp only: batchItems_processBatch_run batchItems_listened batchItems_early)
  from a b c d e f g i j k l m show ?thesis by blast
qed

theorem processBatch_builds_items_witness:
  "map name (batchItems (processBatch_start [''C:'' @ [CHR 0x5C] @ ''in/a.jpg'', ''b.png'']
               exampleId mounted)) = [''a.jpg'', ''b.png'']
   \<and> map status (batchItems (processBatch_start [''C:'' @ [CHR 0x5C] @ ''in/a.jpg'', ''b.png'']
               exampleId mounted)) = [Pending, Pending]
   \<and> map status (batchItems (processBatch_listened [''C:'' @ [CHR 0x5C] @ ''in/a.jpg'', ''b.png'']
               Transparent 0 (fold deliver []
                 (processBatch_start [''C:'' @ [CHR 0x5C] @ ''in/a.jpg'', ''b.png'']
                    exampleId mounted)))) = [Processing, Processing]"
  using processBatch_builds_items
    [of "[''C:'' @ [CHR 0x5C] @ ''in/a.jpg'', ''b.png'']" exampleId mounted "[]" Transparent 0
        mounted "[]" None]
  by (simp add: app_defs)

text \<open>
  C1 as it is written fails where it says that the bulk change comes before any
  completion event is applied: the handler is registered by \<^verbatim>\<open>listen\<close> before the bulk update runs, and all runs
  use the same event name. After a reset and a new submission, the event that the
  backend still reports for \<open>a.jpg\<close> of the first run arrives while \<^verbatim>\<open>listen\<close> is
  awaited and is applied to the \<open>Pending\<close> items of the new run; the bulk change comes
  after it.
\<close>

theorem event_before_dispatch_counterexample:
  "map status (batchItems (run
      [BatchStart [''a.jpg'', ''b.png''] exampleId,
       BatchListened [''a.jpg'', ''b.png''] Transparent 0, Reset,
       BatchStart [''c.jpg'', ''d.png''] exampleId] mounted)) = [Pending, Pending]
   \<and> map status (batchItems (run
      [BatchStart [''a.jpg'', ''b.png''] exampleId,
       BatchListened [''a.jpg'', ''b.png''] Transparent 0, Reset,
       BatchStart [''c.jpg'', ''d.png''] exampleId,
       Progress \<lparr> ev_index = 0, ev_total = 2, ev_name = ''a.jpg'',
                  result_data_url = Some ''data:a'', ev_error = None \<rparr>] mounted))
       = [Done, Pending]
   \<and> map resultDataUrl (batchItems (run
      [BatchStart [''a.jpg'', ''b.png''] exampleId,
       BatchListened [''a.jpg'', ''b.png''] Transparent 0, Reset,
       BatchStart [''c.jpg'', ''d.png''] exampleId,
       Progress \<lparr> ev_index = 0, ev_total = 2, ev_name = ''a.jpg'',
                  result_data_url = Some ''data:a'', ev_error = None \<rparr>] mounted))
       = [Some ''data:a'', None]
   \<and> map status (batchItems (run
      [BatchStart [''a.jpg'', ''b.png''] exampleId,
       BatchListened [''a.jpg'', ''b.png''] Transparent 0, Reset,
       BatchStart [''c.jpg'', ''d.png''] exampleId,
       Progress \<lparr> ev_index = 0, ev_total = 2, ev_name = ''a.jpg'',
                  result_data_url = Some ''data:a'', ev_error = None \<rparr>,
       BatchListened [''c.jpg'', ''d.png''] Transparent 1] mounted))
       = [Processing, Processing]"
  by (simp add: app_defs)

section \<open>Dispatch of dropped or selected files\<close>

text \<open>
  C10. \<^verbatim>\<open>handlePaths\<close> sends a list of exactly one path to the single-image pipeline,
  which processes that path, and a list of two or more paths to the batch pipeline,
  which processes all of them. In each case exactly one backend command is invoked, so
  no list goes to both pipelines.
\<close>

theorem handlePaths_routes:
  "(length paths = 1 \<longrightarrow>
      handlePaths conv gen single_outcome evs batch_outcome paths s =
        processSinglePath (hd paths) (conv (hd paths)) single_outcome s
      \<and> invoked (handlePaths conv gen single_outcome evs batch_outcome paths s) =
          invoked s @ [ProcessSingleImage (hd paths) (background s)])
   \<and> (2 \<le> length paths \<longrightarrow>
      handlePaths conv gen single_outcome evs batch_outcome paths s =
        processBatch paths gen evs batch_outcome s
      \<and> invoked (handlePaths conv gen single_outcome evs batch_outcome paths s) =
          invoked s @ [ProcessBatchImages paths (background s)])"
  by (cases paths)
     (auto simp: handlePaths_def processSinglePath_def invoked_single_settle
        invoked_single_start invoked_processBatch)

theorem handlePaths_routes_witness:
  "handlePaths (\<lambda>p. ''asset://'' @ p) (\<lambda>k. ''id'') (Inr ''data:r'') [] None [''a.jpg''] mounted =
     processSinglePath ''a.jpg'' ''asset://a.jpg'' (Inr ''data:r'') mounted
   \<and> invoked (handlePaths (\<lambda>p. ''asset://'' @ p) (\<lambda>k. ''id'') (Inr ''data:r'') [] None
        [''a.jpg''] mounted) = [ProcessSingleImage ''a.jpg'' Transparent]
   \<and> handlePaths (\<lambda>p. ''asset://'' @ p) (\<lambda>k. ''id'') (Inr ''data:r'') [] None
        [''a.jpg'', ''b.png''] mounted =
     processBatch [''a.jpg'', ''b.png''] (\<lambda>k. ''id'') [] None mounted
   \<and> invoked (handlePaths (\<lambda>p. ''asset://'' @ p) (\<lambda>k. ''id'') (Inr ''data:r'') [] None
        [''a.jpg'', ''b.png''] mounted) = [ProcessBatchImages [''a.jpg'', ''b.png''] Transparent]"
  using handlePaths_routes
    [of "[''a.jpg'']" "\<lambda>p. ''asset://'' @ p" "\<lambda>k. ''id''" "Inr ''data:r''" "[]" None mounted]
    handlePaths_routes
    [of "[''a.jpg'', ''b.png'']" "\<lambda>p. ''asset://'' @ p" "\<lambda>k. ''id''" "Inr ''data:r''" "[]" None mounted]
  by (simp add: app_defs)

section \<open>Applying a progress event\<close>

lemma applyProgress_commute:
  "ev_index e1 \<noteq> ev_index e2 \<Longrightarrow>
     applyProgress e1 (applyProgress e2 items) = applyProgress e2 (applyProgress e1 items)"
  by (rule nth_equalityI) (auto simp: nth_applyProgress applyEvent_def)

text \<open>
  C2, as the code has it. Applying an event with index \<open>i\<close> keeps the length of the
  list, leaves every item at another position as it is, and at position \<open>i\<close> stores the
  event's result payload and error and sets the status: \<open>Error\<close> when the error is
  present and not the empty string, \<open>Done\<close> otherwise (the handler tests the error for
  truthiness). The handler changes the item list only. Events with different indices
  can be applied in either order with the same result: the item is found by the index,
  not by the order of arrival.
\<close>

theorem applyProgress_frame:
  "length (applyProgress ev items) = length items
   \<and> (\<forall>j<length items.
        applyProgress ev items ! j =
          (if int j = ev_index ev
           then (items ! j)\<lparr> status := (if ev_error ev = None \<or> ev_error ev = Some [] then Done
                                         else Error),
                             resultDataUrl := result_data_url ev,
                             error := ev_error ev \<rparr>
           else items ! j))
   \<and> batchItems (batchProgressHandler ev s) = applyProgress ev (batchItems s)
   \<and> (ev_index e1 \<noteq> ev_index e2 \<longrightarrow>
        applyProgress e1 (applyProgress e2 items) = applyProgress e2 (applyProgress e1 items))"
  by (auto simp: nth_applyProgress applyEvent_def truthy_def batchProgressHandler_def
      applyProgress_commute split: option.splits)

theorem applyProgress_frame_witness:
  "map status
     (applyProgress
        \<lparr> ev_index = 1, ev_total = 2, ev_name = ''b.png'', result_data_url = None,
          ev_error = Some ''unreadable'' \<rparr>
        [\<lparr> item_id = ''i'', name = ''a.jpg'', sourcePath = Some ''a.jpg'',
           sourceDataUrl = None, status = Processing, resultDataUrl = None, error = None \<rparr>,
         \<lparr> item_id = ''ii'', name = ''b.png'', sourcePath = Some ''b.png'',
           sourceDataUrl = None, status = Processing, resultDataUrl = None, error = None \<rparr>])
   = [Processing, Error]
   \<and> map status
     (applyProgress
        \<lparr> ev_index = 1, ev_total = 2, ev_name = ''b.png'', result_data_url = None,
          ev_error = Some ''unreadable'' \<rparr>
        (applyProgress
           \<lparr> ev_index = 0, ev_total = 2, ev_name = ''a.jpg'',
             result_data_url = Some ''data:a'', ev_error = None \<rparr>
           [\<lparr> item_id = ''i'', name = ''a.jpg'', sourcePath = Some ''a.jpg'',
              sourceDataUrl = None, status = Processing, resultDataUrl = None, error = None \<rparr>,
            \<lparr> item_id = ''ii'', name = ''b.png'', sourcePath = Some ''b.png'',
              sourceDataUrl = None, status = Processing, resultDataUrl = None, error = None \<rparr>]))
   = [Done, Error]"
  using applyProgress_frame
    [of "\<lparr> ev_index = 1, ev_total = 2, ev_name = ''b.png'', result_data_url = None,
          ev_error = Some ''unreadable'' \<rparr>"
        "[\<lparr> item_id = ''i'', name = ''a.jpg'', sourcePath = Some ''a.jpg'',
           sourceDataUrl = None, status = Processing, resultDataUrl = None, error = None \<rparr>,
         \<lparr> item_id = ''ii'', name = ''b.png'', sourcePath = Some ''b.png'',
           sourceDataUrl = None, status = Processing, resultDataUrl = None, error = None \<rparr>]"
        mounted
        "\<lparr> ev_index = 1, ev_total = 2, ev_name = ''b.png'', result_data_url = None,
          ev_error = Some ''unreadable'' \<rparr>"
        "\<lparr> ev_index = 0, ev_total = 2, ev_name = ''a.jpg'', result_data_url = Some ''data:a'',
          ev_error = None \<rparr>"]
  by (simp add: app_defs)

text \<open>
  C2 as it is written fails on an event whose error field is present and empty: the
  item becomes \<open>Done\<close>, not \<open>Error\<close>.
\<close>

theorem empty_error_counterexample:
  "ev_error \<lparr> ev_index = 0, ev_total = 1, ev_name = ''a.jpg'', result_data_url = None,
              ev_error = Some [] \<rparr> \<noteq> None
   \<and> map status
       (applyProgress
          \<lparr> ev_index = 0, ev_total = 1, ev_name = ''a.jpg'', result_data_url = None,
            ev_error = Some [] \<rparr>
          [\<lparr> item_id = ''i'', name = ''a.jpg'', sourcePath = Some ''a.jpg'',
             sourceDataUrl = None, status = Processing, resultDataUrl = None,
             error = None \<rparr>]) = [Done]"
  by (simp add: applyProgress_def applyEvent_def truthy_def)

section \<open>The state machine of a batch item\<close>

lemma status_applyProgress_terminal:
  "j < length items \<Longrightarrow> terminal (status (items ! j)) \<Longrightarrow>
     terminal (status (applyProgress ev items ! j))"
  by (auto simp: nth_applyProgress applyEvent_def)

lemma status_applyProgress_hit:
  "j < length items \<Longrightarrow> ev_index ev = int j \<Longrightarrow>
     terminal (status (applyProgress ev items ! j))"
  by (auto simp: nth_applyProgress applyEvent_def)

lemma status_fold_terminal:
  "j < length items \<Longrightarrow> terminal (status (items ! j)) \<Longrightarrow>
     terminal (status (fold applyProgress evs items ! j))"
proof (induction evs arbitrary: items)
  case Nil
  then show ?case by simp
next
  case (Cons ev evs)
  have "terminal (status (applyProgress ev items ! j))"
    using Cons.prems by (rule status_applyProgress_terminal)
  then show ?case
    using Cons.prems(1) by (simp add: Cons.IH)
qed

lemma status_fold_hit:
  "j < length items \<Longrightarrow> \<exists>e\<in>set evs. ev_index e = int j \<Longrightarrow>
     terminal (status (fold applyProgress evs items ! j))"
proof (induction evs arbitrary: items)
  case Nil
  then show ?case by simp
next
  case (Cons ev evs)
  show ?case
  proof (cases "ev_index ev = int j")
    case True
    then have "terminal (status (applyProgress ev items ! j))"
      using Cons.prems(1) by (simp add: status_applyProgress_hit)
    then show ?thesis
      using Cons.prems(1) by (simp add: status_fold_terminal)
  next
    case False
    then have "\<exists>e\<in>set evs. ev_index e = int j"
      using Cons.prems(2) by auto
    then show ?thesis
      using Cons.prems(1) by (simp add: Cons.IH)
  qed
qed

lemma status_applyProgress_not_pending:
  "j < length items \<Longrightarrow> status (items ! j) \<noteq> Pending \<Longrightarrow>
     status (applyProgress ev items ! j) \<noteq> Pending"
  by (auto simp: nth_applyProgress applyEvent_def)

lemma status_applyProgress:
  "k < length items \<Longrightarrow>
     status (applyProgress ev items ! k) =
       (if int k = ev_index ev then (if truthy (ev_error ev) then Error else Done)
        else status (items ! k))"
  by (simp add: nth_applyProgress applyEvent_def)

lemma batchItems_perform:
  "\<not> batch_list_op a \<Longrightarrow>
     batchItems (perform a s) = batchItems s
     \<or> (\<exists>ev. batchItems (perform a s) = applyProgress ev (batchItems s))"
  by (cases a)
     (auto simp: deliver_eq batchProgressHandler_def
        processSinglePath_start_def processSinglePath_settle_def
        processClipboard_start_def processClipboard_settle_def reprocessClipboard_settle_def
        reprocessClipboard_start_def processBatch_settle_def setBackground_def
        backgroundEffect_def showError_timeout_def showError_def invoke_def Let_def
        split: sum.splits option.splits)

lemma keep_perform:
  assumes "\<not> batch_list_op a" and "k < length (batchItems s)"
  shows "length (batchItems (perform a s)) = length (batchItems s)
     \<and> (terminal (status (batchItems s ! k)) \<longrightarrow>
          terminal (status (batchItems (perform a s) ! k)))
     \<and> (status (batchItems s ! k) \<noteq> Pending \<longrightarrow>
          status (batchItems (perform a s) ! k) \<noteq> Pending)"
proof -
  from batchItems_perform [OF assms(1), of s]
  show ?thesis
  proof
    assume "batchItems (perform a s) = batchItems s"
    then show ?thesis by simp
  next
    assume "\<exists>ev. batchItems (perform a s) = applyProgress ev (batchItems s)"
    then obtain ev where ev: "batchItems (perform a s) = applyProgress ev (batchItems s)" ..
    show ?thesis
      using assms(2)
      by (simp add: ev status_applyProgress_terminal status_applyProgress_not_pending)
  qed
qed

lemma keep_fold:
  "\<forall>a\<in>set acts. \<not> batch_list_op a \<Longrightarrow> k < length (batchItems s) \<Longrightarrow>
     length (batchItems (fold perform acts s)) = length (batchItems s)
     \<and> (terminal (status (batchItems s ! k)) \<longrightarrow>
          terminal (status (batchItems (fold perform acts s) ! k)))
     \<and> (status (batchItems s ! k) \<noteq> Pending \<longrightarrow>
          status (batchItems (fold perform acts s) ! k) \<noteq> Pending)"
proof (induction acts arbitrary: s)
  case Nil
  then show ?case by simp
next
  case (Cons a acts)
  have a: "\<not> batch_list_op a" and rest: "\<forall>b\<in>set acts. \<not> batch_list_op b"
    using Cons.prems(1) by simp_all
  note step = keep_perform [OF a Cons.prems(2)]
  have k: "k < length (batchItems (perform a s))"
    using step Cons.prems(2) by simp
  from Cons.IH [OF rest k] step show ?case by simp
qed

text \<open>
  C3, as the code has it. An item is \<open>Pending\<close> at creation. A progress event with the
  index of an item sets its status to \<open>Done\<close> or \<open>Error\<close>, anew if it was \<open>Done\<close> or
  \<open>Error\<close> already, and leaves the items at other positions as they are. Every bulk
  dispatch sets every item to \<open>Processing\<close> whatever its status, so an item that an event
  of an earlier run made \<open>Done\<close> or \<open>Error\<close> while \<^verbatim>\<open>listen\<close> was awaited returns to
  \<open>Processing\<close>. In a call of \<^verbatim>\<open>processBatch\<close> (creation, events \<open>early\<close> before the
  dispatch, dispatch, events after it) the item at position \<open>j\<close> stays \<open>Pending\<close> before
  the dispatch unless an early event has its index, it is \<open>Processing\<close> after the
  dispatch as long as no later event carries the index \<open>j\<close> and \<open>Done\<close> or \<open>Error\<close> once
  one does; from then on it never returns to \<open>Pending\<close> or \<open>Processing\<close> whatever events
  follow, and it keeps its status under all later events that carry another index.
  Under every sequence of handler runs without a batch submission, bulk dispatch or
  reset, the list keeps its length, an item that is \<open>Done\<close> or \<open>Error\<close> stays so, and
  no item returns to \<open>Pending\<close>.
\<close>

theorem status_moves_forward:
  "j < length paths \<Longrightarrow>
     status (batchItems (processBatch_start paths gen s) ! j) = Pending
     \<and> ((\<forall>e\<in>set early. ev_index e \<noteq> int j) \<longrightarrow>
          status (batchItems (fold deliver early (processBatch_start paths gen s)) ! j) = Pending)
     \<and> ((\<exists>e\<in>set early. ev_index e = int j) \<longrightarrow>
          terminal (status (batchItems (fold deliver early (processBatch_start paths gen s)) ! j)))
     \<and> status (batchItems (processBatch_run paths gen early [] outcome s) ! j) = Processing
     \<and> ((\<forall>e\<in>set evs. ev_index e \<noteq> int j) \<longrightarrow>
          status (batchItems (processBatch_run paths gen early evs outcome s) ! j) = Processing)
     \<and> ((\<exists>e\<in>set evs. ev_index e = int j) \<longrightarrow>
          terminal (status (batchItems (processBatch_run paths gen early evs outcome s) ! j)))
     \<and> (terminal (status (batchItems (processBatch_run paths gen early evs outcome s) ! j)) \<longrightarrow>
          terminal (status (batchItems
            (processBatch_run paths gen early (evs @ evs') outcome s) ! j))
          \<and> ((\<forall>e\<in>set evs'. ev_index e \<noteq> int j) \<longrightarrow>
               status (batchItems (processBatch_run paths gen early (evs @ evs') outcome s) ! j) =
               status (batchItems (processBatch_run paths gen early evs outcome s) ! j)))
     \<and> (k < length items \<longrightarrow>
          status (applyProgress ev items ! k) =
            (if int k = ev_index ev then (if truthy (ev_error ev) then Error else Done)
             else status (items ! k)))
     \<and> map status (batchItems (processBatch_listened paths' opts h t)) =
         replicate (length (batchItems t)) Processing
     \<and> ((\<forall>a\<in>set acts. \<not> batch_list_op a) \<and> k < length (batchItems t) \<longrightarrow>
          length (batchItems (run acts t)) = length (batchItems t)
          \<and> (terminal (status (batchItems t ! k)) \<longrightarrow>
               terminal (status (batchItems (run acts t) ! k)))
          \<and> (status (batchItems t ! k) \<noteq> Pending \<longrightarrow>
               status (batchItems (run acts t) ! k) \<noteq> Pending))"
proof -
  assume j: "j < length paths"
  let ?created = "map (newItem gen) (enumerate 0 paths)"
  let ?before = "fold applyProgress early ?created"
  let ?d = "map (\<lambda>item. item\<lparr> status := Processing \<rparr>) ?before"
  have jc: "j < length ?created" using j by simp
  have len: "j < length ?d" using j by simp
  have dj: "status (?d ! j) = Processing" using j by simp
  have a: "status (batchItems (processBatch_start paths gen s) ! j) = Pending"
    using j by (simp add: nth_created newItem_def)
  have b: "(\<forall>e\<in>set early. ev_index e \<noteq> int j) \<longrightarrow>
      status (batchItems (fold deliver early (processBatch_start paths gen s)) ! j) = Pending"
  proof
    assume "\<forall>e\<in>set early. ev_index e \<noteq> int j"
    then have "?before ! j = ?created ! j"
      using jc by (rule nth_fold_other [rotated])
    then show "status (batchItems (fold deliver early (processBatch_start paths gen s)) ! j)
        = Pending"
      using j by (simp add: batchItems_early nth_enumerate_eq newItem_def)
  qed
  have c: "(\<exists>e\<in>set early. ev_index e = int j) \<longrightarrow>
      terminal (status (batchItems (fold deliver early (processBatch_start paths gen s)) ! j))"
    using status_fold_hit [OF jc, of early] by (simp only: batchItems_early) blast
  have d: "status (batchItems (processBatch_run paths gen early [] outcome s) ! j) = Processing"
    using dj by (simp only: batchItems_processBatch_run fold_simps)
  have e: "(\<forall>e\<in>set evs. ev_index e \<noteq> int j) \<longrightarrow>
      status (batchItems (processBatch_run paths gen early evs outcome s) ! j) = Processing"
  proof
    assume "\<forall>e\<in>set evs. ev_index e \<noteq> int j"
    then have "fold applyProgress evs ?d ! j = ?d ! j"
      using len by (rule nth_fold_other [rotated])
    then show "status (batchItems (processBatch_run paths gen early evs outcome s) ! j)
        = Processing"
      using dj by (simp only: batchItems_processBatch_run)
  qed
  have f: "(\<exists>e\<in>set evs. ev_index e = int j) \<longrightarrow>
      terminal (status (batchItems (processBatch_run paths gen early evs outcome s) ! j))"
    using status_fold_hit [OF len, of evs] by (simp only: batchItems_processBatch_run) blast
  have g: "terminal (status (batchItems (processBatch_run paths gen early evs outcome s) ! j)) \<longrightarrow>
      terminal (status (batchItems
        (processBatch_run paths gen early (evs @ evs') outcome s) ! j))
      \<and> ((\<forall>e\<in>set evs'. ev_index e \<noteq> int j) \<longrightarrow>
           status (batchItems (processBatch_run paths gen early (evs @ evs') outcome s) ! j) =
           status (batchItems (processBatch_run paths gen early evs outcome s) ! j))"
  proof
    assume t: "terminal (status (batchItems
        (processBatch_run paths gen early evs outcome s) ! j))"
    have len2: "j < length (fold applyProgress evs ?d)" using j by simp
    have t': "terminal (status (fold applyProgress evs ?d ! j))"
      using t by (simp only: batchItems_processBatch_run)
    have "terminal (status (fold applyProgress evs' (fold applyProgress evs ?d) ! j))"
      using len2 t' by (rule status_fold_terminal)
    moreover have "(\<forall>e\<in>set evs'. ev_index e \<noteq> int j) \<longrightarrow>
        fold applyProgress evs' (fold applyProgress evs ?d) ! j = fold applyProgress evs ?d ! j"
      using len2 nth_fold_other [of j "fold applyProgress evs ?d" evs'] by blast
    ultimately show "terminal (status (batchItems
        (processBatch_run paths gen early (evs @ evs') outcome s) ! j))
      \<and> ((\<forall>e\<in>set evs'. ev_index e \<noteq> int j) \<longrightarrow>
           status (batchItems (processBatch_run paths gen early (evs @ evs') outcome s) ! j) =
           status (batchItems (processBatch_run paths gen early evs outcome s) ! j))"
      by (simp only: batchItems_processBatch_run fold_append comp_apply) simp
  qed
  have h: "k < length items \<longrightarrow>
      status (applyProgress ev items ! k) =
        (if int k = ev_index ev then (if truthy (ev_error ev) then Error else Done)
         else status (items ! k))"
    by (simp add: status_applyProgress)
  have i: "map status (batchItems (processBatch_listened paths' opts h t)) =
      replicate (length (batchItems t)) Processing"
    by (simp only: batchItems_listened map_status_processing)
  have l: "(\<forall>a\<in>set acts. \<not> batch_list_op a) \<and> k < length (batchItems t) \<longrightarrow>
      length (batchItems (run acts t)) = length (batchItems t)
      \<and> (terminal (status (batchItems t ! k)) \<longrightarrow>
           terminal (status (batchItems (run acts t) ! k)))
      \<and> (status (batchItems t ! k) \<noteq> Pending \<longrightarrow>
           status (batchItems (run acts t) ! k) \<noteq> Pending)"
    unfolding run_def using keep_fold [of acts k t] by blast
  from a b c d e f g h i l show ?thesis by blast
qed

theorem status_moves_forward_witness:
  "status (batchItems (fold deliver
      [\<lparr> ev_index = 1, ev_total = 2, ev_name = ''z.png'', result_data_url = None,
         ev_error = Some ''unreadable'' \<rparr>]
      (processBatch_start [''a.jpg'', ''b.png''] exampleId mounted)) ! 0) = Pending
   \<and> status (batchItems (fold deliver
      [\<lparr> ev_index = 1, ev_total = 2, ev_name = ''z.png'', result_data_url = None,
         ev_error = Some ''unreadable'' \<rparr>]
      (processBatch_start [''a.jpg'', ''b.png''] exampleId mounted)) ! 1) = Error
   \<and> status (batchItems (processBatch_run [''a.jpg'', ''b.png''] exampleId
      [\<lparr> ev_index = 1, ev_total = 2, ev_name = ''z.png'', result_data_url = None,
         ev_error = Some ''unreadable'' \<rparr>]
      [\<lparr> ev_index = 0, ev_total = 2, ev_name = ''a.jpg'', result_data_url = Some ''data:a'',
         ev_error = None \<rparr>] None mounted) ! 0) = Done
   \<and> status (batchItems (processBatch_run [''a.jpg'', ''b.png''] exampleId
      [\<lparr> ev_index = 1, ev_total = 2, ev_name = ''z.png'', result_data_url = None,
         ev_error = Some ''unreadable'' \<rparr>]
      [\<lparr> ev_index = 0, ev_total = 2, ev_name = ''a.jpg'', result_data_url = Some ''data:a'',
         ev_error = None \<rparr>] None mounted) ! 1) = Processing
   \<and> status (batchItems (processBatch_run [''a.jpg'', ''b.png''] exampleId
      [\<lparr> ev_index = 1, ev_total = 2, ev_name = ''z.png'', result_data_url = None,
         ev_error = Some ''unreadable'' \<rparr>]
      ([\<lparr> ev_index = 0, ev_total = 2, ev_name = ''a.jpg'', result_data_url = Some ''data:a'',
          ev_error = None \<rparr>] @
       [\<lparr> ev_index = 1, ev_total = 2, ev_name = ''b.png'', result_data_url = Some ''data:b'',
          ev_error = None \<rparr>]) None mounted) ! 0) = Done
   \<and> status (batchItems (run
      [Progress \<lparr> ev_index = 1, ev_total = 2, ev_name = ''b.png'',
                  result_data_url = Some ''data:b'', ev_error = None \<rparr>,
       SetBackground White, ClipboardStart]
      (processBatch [''a.jpg'', ''b.png''] exampleId
         [\<lparr> ev_index = 0, ev_total = 2, ev_name = ''a.jpg'', result_data_url = Some ''data:a'',
            ev_error = None \<rparr>] None mounted)) ! 0) = Done"
  using status_moves_forward
    [where j = 0 and paths = "[''a.jpg'', ''b.png'']" and gen = exampleId and s = mounted
       and outcome = None
       and early = "[\<lparr> ev_index = 1, ev_total = 2, ev_name = ''z.png'',
           result_data_url = None, ev_error = Some ''unreadable'' \<rparr>]"
       and evs = "[\<lparr> ev_index = 0, ev_total = 2, ev_name = ''a.jpg'',
           result_data_url = Some ''data:a'', ev_error = None \<rparr>]"
       and evs' = "[\<lparr> ev_index = 1, ev_total = 2, ev_name = ''b.png'',
           result_data_url = Some ''data:b'', ev_error = None \<rparr>]"
       and k = 0
       and items = "batchItems (processBatch [''a.jpg'', ''b.png''] exampleId
           [\<lparr> ev_index = 0, ev_total = 2, ev_name = ''a.jpg'',
              result_data_url = Some ''data:a'', ev_error = None \<rparr>] None mounted)"
       and ev = "\<lparr> ev_index = 1, ev_total = 2, ev_name = ''b.png'',
           result_data_url = Some ''data:b'', ev_error = None \<rparr>"
       and paths' = "[''a.jpg'', ''b.png'']" and opts = Transparent and h = 0
       and t = "processBatch [''a.jpg'', ''b.png''] exampleId
           [\<lparr> ev_index = 0, ev_total = 2, ev_name = ''a.jpg'',
              result_data_url = Some ''data:a'', ev_error = None \<rparr>] None mounted"
       and acts = "[Progress \<lparr> ev_index = 1, ev_total = 2, ev_name = ''b.png'',
                     result_data_url = Some ''data:b'', ev_error = None \<rparr>,
          SetBackground White, ClipboardStart]"]
    status_moves_forward
    [where j = 1 and paths = "[''a.jpg'', ''b.png'']" and gen = exampleId and s = mounted
       and outcome = None
       and early = "[\<lparr> ev_index = 1, ev_total = 2, ev_name = ''z.png'',
           result_data_url = None, ev_error = Some ''unreadable'' \<rparr>]"
       and evs = "[\<lparr> ev_index = 0, ev_total = 2, ev_name = ''a.jpg'',
           result_data_url = Some ''data:a'', ev_error = None \<rparr>]"
       and evs' = "[]" and k = 0 and items = "[]"
       and ev = "\<lparr> ev_index = 1, ev_total = 2, ev_name = ''b.png'',
           result_data_url = Some ''data:b'', ev_error = None \<rparr>"
       and paths' = "[''a.jpg'', ''b.png'']" and opts = Transparent and h = 0
       and t = mounted and acts = "[]"]
  by (simp add: app_defs)

text \<open>
  C3 as it is written fails in two ways. The handler has no guard on the status, so a
  second event with the index of a \<open>Done\<close> item makes it \<open>Error\<close>. And the bulk
  dispatch sets every item to \<open>Processing\<close> whatever its status: an event that an
  earlier, reset run still reports and that arrives while \<^verbatim>\<open>listen\<close> is awaited makes
  the item \<open>Done\<close>, and the dispatch then returns it to \<open>Processing\<close>.
\<close>

theorem status_overwritten_counterexample:
  "map status (batchItems (processBatch [''a.jpg''] exampleId
      [\<lparr> ev_index = 0, ev_total = 1, ev_name = ''a.jpg'', result_data_url = Some ''data:a'',
         ev_error = None \<rparr>] None mounted)) = [Done]
   \<and> map status (batchItems (processBatch [''a.jpg''] exampleId
      [\<lparr> ev_index = 0, ev_total = 1, ev_name = ''a.jpg'', result_data_url = Some ''data:a'',
         ev_error = None \<rparr>,
       \<lparr> ev_index = 0, ev_total = 1, ev_name = ''a.jpg'', result_data_url = None,
         ev_error = Some ''unreadable'' \<rparr>] None mounted)) = [Error]
   \<and> map status (batchItems (run
      [BatchStart [''a.jpg''] exampleId, BatchListened [''a.jpg''] Transparent 0, Reset,
       BatchStart [''c.jpg''] exampleId,
       Progress \<lparr> ev_index = 0, ev_total = 1, ev_name = ''a.jpg'',
                  result_data_url = Some ''data:a'', ev_error = None \<rparr>] mounted)) = [Done]
   \<and> map status (batchItems (run
      [BatchStart [''a.jpg''] exampleId, BatchListened [''a.jpg''] Transparent 0, Reset,
       BatchStart [''c.jpg''] exampleId,
       Progress \<lparr> ev_index = 0, ev_total = 1, ev_name = ''a.jpg'',
                  result_data_url = Some ''data:a'', ev_error = None \<rparr>,
       BatchListened [''c.jpg''] Transparent 1] mounted)) = [Processing]"
  by (simp add: app_defs)

section \<open>Result payload and error of a batch item\<close>

lemma fields_match_newItem: "fields_match_status (newItem gen kp)"
  by (cases kp) (simp add: fields_match_status_def newItem_def)

lemma fields_match_dispatched_new:
  "fields_match_status ((newItem gen kp)\<lparr> status := Processing \<rparr>)"
  by (cases kp) (simp add: fields_match_status_def newItem_def)

lemma fields_match_applyEvent:
  "wf_event ev \<Longrightarrow> fields_match_status item \<Longrightarrow> fields_match_status (applyEvent ev (i, item))"
  by (auto simp: wf_event_def fields_match_status_def applyEvent_def truthy_def
      split: option.splits)

lemma fields_match_applyEvent_hit:
  "wf_event ev \<Longrightarrow> ev_index ev = int i \<Longrightarrow> fields_match_status (applyEvent ev (i, item))"
  by (auto simp: wf_event_def fields_match_status_def applyEvent_def truthy_def
      split: option.splits)

lemma fields_match_fold_keep:
  "\<forall>e\<in>set evs. wf_event e \<Longrightarrow> j < length items \<Longrightarrow> fields_match_status (items ! j) \<Longrightarrow>
     fields_match_status (fold applyProgress evs items ! j)"
proof (induction evs arbitrary: items)
  case Nil
  then show ?case by simp
next
  case (Cons ev evs)
  have wf: "wf_event ev" and rest: "\<forall>e\<in>set evs. wf_event e"
    using Cons.prems(1) by simp_all
  have j: "j < length (applyProgress ev items)"
    using Cons.prems(2) by simp
  have "fields_match_status (applyProgress ev items ! j)"
    using Cons.prems(2,3) wf by (simp add: nth_applyProgress fields_match_applyEvent)
  from Cons.IH [OF rest j this] show ?case by simp
qed

lemma fields_match_fold_hit:
  "\<forall>e\<in>set evs. wf_event e \<Longrightarrow> j < length items \<Longrightarrow> \<exists>e\<in>set evs. ev_index e = int j \<Longrightarrow>
     fields_match_status (fold applyProgress evs items ! j)"
proof (induction evs arbitrary: items)
  case Nil
  then show ?case by simp
next
  case (Cons ev evs)
  have wf: "wf_event ev" and rest: "\<forall>e\<in>set evs. wf_event e"
    using Cons.prems(1) by simp_all
  have j: "j < length (applyProgress ev items)"
    using Cons.prems(2) by simp
  show ?case
  proof (cases "ev_index ev = int j")
    case True
    have "fields_match_status (applyProgress ev items ! j)"
      using Cons.prems(2) wf True by (simp add: nth_applyProgress fields_match_applyEvent_hit)
    from fields_match_fold_keep [OF rest j this] show ?thesis by simp
  next
    case False
    then have "\<exists>e\<in>set evs. ev_index e = int j"
      using Cons.prems(3) by auto
    from Cons.IH [OF rest j this] show ?thesis by simp
  qed
qed

lemma map_resultDataUrl_dispatched:
  "map resultDataUrl (map (\<lambda>item. item\<lparr> status := Processing \<rparr>) xs) = map resultDataUrl xs"
  by (induction xs) simp_all

lemma map_error_dispatched:
  "map error (map (\<lambda>item. item\<lparr> status := Processing \<rparr>) xs) = map error xs"
  by (induction xs) simp_all

text \<open>
  C4, as the code has it. Take a call of \<^verbatim>\<open>processBatch\<close> whose progress events each
  carry either a result payload and no error, or a non-empty error and no result
  payload. After creation, and after the events that arrive before the bulk dispatch,
  every item has its result payload present exactly when it is \<open>Done\<close> and its error
  present exactly when it is \<open>Error\<close>. After the dispatch and the events that follow
  it, this holds for every item that no event reached before the dispatch or that an
  event reached after it; it holds for every item when no event arrives before the
  dispatch. The dispatch changes the status only and keeps both fields. For an item
  with this property the two fields are never both present, and both are absent while
  it is \<open>Pending\<close> or \<open>Processing\<close>.
\<close>

theorem fields_match_status_run:
  "\<forall>e\<in>set early. wf_event e \<Longrightarrow> \<forall>e\<in>set evs. wf_event e \<Longrightarrow> j < length paths \<Longrightarrow>
     fields_match_status (batchItems (processBatch_start paths gen s) ! j)
     \<and> fields_match_status (batchItems (fold deliver early (processBatch_start paths gen s)) ! j)
     \<and> ((\<forall>e\<in>set early. ev_index e \<noteq> int j) \<or> (\<exists>e\<in>set evs. ev_index e = int j) \<longrightarrow>
          fields_match_status
            (batchItems (processBatch_run paths gen early evs outcome s) ! j))
     \<and> fields_match_status (batchItems (processBatch paths gen [] outcome s) ! j)
     \<and> fields_match_status (batchItems (processBatch paths gen evs outcome s) ! j)
     \<and> map resultDataUrl (batchItems (processBatch_listened paths' opts h t)) =
         map resultDataUrl (batchItems t)
     \<and> map error (batchItems (processBatch_listened paths' opts h t)) = map error (batchItems t)
     \<and> (\<forall>item. fields_match_status item \<longrightarrow>
           \<not> (resultDataUrl item \<noteq> None \<and> error item \<noteq> None)
           \<and> (status item = Pending \<or> status item = Processing \<longrightarrow>
                resultDataUrl item = None \<and> error item = None))"
proof -
  assume wfe: "\<forall>e\<in>set early. wf_event e" and wf: "\<forall>e\<in>set evs. wf_event e"
    and j: "j < length paths"
  let ?created = "map (newItem gen) (enumerate 0 paths)"
  let ?before = "fold applyProgress early ?created"
  let ?d = "map (\<lambda>item. item\<lparr> status := Processing \<rparr>) ?before"
  have jc: "j < length ?created" using j by simp
  have jd: "j < length ?d" using j by simp
  have cj: "fields_match_status (?created ! j)"
    using j by (simp add: fields_match_newItem)
  have a: "fields_match_status (batchItems (processBatch_start paths gen s) ! j)"
    using j by (simp add: nth_created fields_match_newItem)
  have b: "fields_match_status
      (batchItems (fold deliver early (processBatch_start paths gen s)) ! j)"
    using fields_match_fold_keep [OF wfe jc cj] by (simp only: batchItems_early)
  have c: "(\<forall>e\<in>set early. ev_index e \<noteq> int j) \<or> (\<exists>e\<in>set evs. ev_index e = int j) \<longrightarrow>
      fields_match_status (batchItems (processBatch_run paths gen early evs outcome s) ! j)"
  proof
    assume "(\<forall>e\<in>set early. ev_index e \<noteq> int j) \<or> (\<exists>e\<in>set evs. ev_index e = int j)"
    then have "fields_match_status (fold applyProgress evs ?d ! j)"
    proof
      assume "\<forall>e\<in>set early. ev_index e \<noteq> int j"
      then have "?before ! j = ?created ! j"
        using jc by (rule nth_fold_other [rotated])
      then have "fields_match_status (?d ! j)"
        using j by (simp add: nth_enumerate_eq fields_match_dispatched_new)
      from fields_match_fold_keep [OF wf jd this] show ?thesis .
    next
      assume "\<exists>e\<in>set evs. ev_index e = int j"
      from fields_match_fold_hit [OF wf jd this] show ?thesis .
    qed
    then show "fields_match_status
        (batchItems (processBatch_run paths gen early evs outcome s) ! j)"
      by (simp only: batchItems_processBatch_run)
  qed
  have d0: "fields_match_status (batchItems (processBatch paths gen [] outcome s) ! j)"
    using j by (simp add: batchItems_processBatch fields_match_dispatched_new)
  have d: "fields_match_status (batchItems (processBatch paths gen evs outcome s) ! j)"
  proof -
    let ?d0 = "map (\<lambda>item. item\<lparr> status := Processing \<rparr>) ?created"
    have j0: "j < length ?d0" using j by simp
    have "fields_match_status (?d0 ! j)"
      using j by (simp add: fields_match_dispatched_new)
    from fields_match_fold_keep [OF wf j0 this] show ?thesis
      by (simp only: batchItems_processBatch)
  qed
  have e: "map resultDataUrl (batchItems (processBatch_listened paths' opts h t)) =
      map resultDataUrl (batchItems t)"
    by (simp only: batchItems_listened map_resultDataUrl_dispatched)
  have f: "map error (batchItems (processBatch_listened paths' opts h t)) =
      map error (batchItems t)"
    by (simp only: batchItems_listened map_error_dispatched)
  have g: "\<forall>item. fields_match_status item \<longrightarrow>
      \<not> (resultDataUrl item \<noteq> None \<and> error item \<noteq> None)
      \<and> (status item = Pending \<or> status item = Processing \<longrightarrow>
           resultDataUrl item = None \<and> error item = None)"
    by (auto simp: fields_match_status_def)
  from a b c d0 d e f g show ?thesis by blast
qed

theorem fields_match_status_run_witness:
  "fields_match_status (batchItems (processBatch [''a.jpg'', ''b.png''] exampleId
      [\<lparr> ev_index = 1, ev_total = 2, ev_name = ''b.png'', result_data_url = None,
         ev_error = Some ''unreadable'' \<rparr>,
       \<lparr> ev_index = 0, ev_total = 2, ev_name = ''a.jpg'', result_data_url = Some ''data:a'',
         ev_error = None \<rparr>] None mounted) ! 1)
   \<and> status (batchItems (processBatch [''a.jpg'', ''b.png''] exampleId
      [\<lparr> ev_index = 1, ev_total = 2, ev_name = ''b.png'', result_data_url = None,
         ev_error = Some ''unreadable'' \<rparr>,
       \<lparr> ev_index = 0, ev_total = 2, ev_name = ''a.jpg'', result_data_url = Some ''data:a'',
         ev_error = None \<rparr>] None mounted) ! 1) = Error
   \<and> resultDataUrl (batchItems (processBatch [''a.jpg'', ''b.png''] exampleId
      [\<lparr> ev_index = 1, ev_total = 2, ev_name = ''b.png'', result_data_url = None,
         ev_error = Some ''unreadable'' \<rparr>,
       \<lparr> ev_index = 0, ev_total = 2, ev_name = ''a.jpg'', result_data_url = Some ''data:a'',
         ev_error = None \<rparr>] None mounted) ! 1) = None
   \<and> fields_match_status (batchItems (processBatch_run [''a.jpg'', ''b.png''] exampleId
      [\<lparr> ev_index = 1, ev_total = 2, ev_name = ''z.png'', result_data_url = Some ''data:z'',
         ev_error = None \<rparr>]
      [\<lparr> ev_index = 1, ev_total = 2, ev_name = ''b.png'', result_data_url = None,
         ev_error = Some ''unreadable'' \<rparr>,
       \<lparr> ev_index = 0, ev_total = 2, ev_name = ''a.jpg'', result_data_url = Some ''data:a'',
         ev_error = None \<rparr>] None mounted) ! 1)"
proof -
  let ?evs = "[\<lparr> ev_index = 1, ev_total = 2, ev_name = ''b.png'', result_data_url = None,
         ev_error = Some ''unreadable'' \<rparr>,
       \<lparr> ev_index = 0, ev_total = 2, ev_name = ''a.jpg'', result_data_url = Some ''data:a'',
         ev_error = None \<rparr>]"
  let ?early = "[\<lparr> ev_index = 1, ev_total = 2, ev_name = ''z.png'',
         result_data_url = Some ''data:z'', ev_error = None \<rparr>]"
  have wf: "\<forall>e\<in>set ?evs. wf_event e"
    by (simp add: wf_event_def)
  have wfe: "\<forall>e\<in>set ?early. wf_event e"
    by (simp add: wf_event_def)
  have none: "\<forall>e\<in>set ([] :: BatchProgressEvent list). wf_event e"
    by simp
  have j: "(1 :: nat) < length [''a.jpg'', ''b.png'']"
    by simp
  have hit: "(\<forall>e\<in>set ?early. ev_index e \<noteq> int 1) \<or> (\<exists>e\<in>set ?evs. ev_index e = int 1)"
    by simp
  note plain = fields_match_status_run [OF none wf j, of exampleId mounted None "[]" Transparent 0
      mounted]
  note stale = fields_match_status_run [OF wfe wf j, of exampleId mounted None "[]" Transparent 0
      mounted]
  have a: "fields_match_status (batchItems (processBatch [''a.jpg'', ''b.png''] exampleId
      ?evs None mounted) ! 1)"
    using plain by (elim conjE)
  have b: "fields_match_status (batchItems (processBatch_run [''a.jpg'', ''b.png''] exampleId
      ?early ?evs None mounted) ! 1)"
    using stale hit by (elim conjE) (rule mp)
  have c: "status (batchItems (processBatch [''a.jpg'', ''b.png''] exampleId
      ?evs None mounted) ! 1) = Error"
    by (simp add: app_defs)
  have d: "resultDataUrl (batchItems (processBatch [''a.jpg'', ''b.png''] exampleId
      ?evs None mounted) ! 1) = None"
    by (simp add: app_defs)
  from a b c d show ?thesis by (intro conjI)
qed

text \<open>
  C4 as it is written fails in two ways. For an arbitrary payload the handler stores
  both fields of the event as they come: an event with a result and an error leaves an
  \<open>Error\<close> item with a result payload, and an event with neither leaves a \<open>Done\<close> item
  without one. And the bulk dispatch keeps the fields: an event with a result payload
  only, still reported for an earlier, reset run, that arrives while \<^verbatim>\<open>listen\<close> is
  awaited leaves, after the dispatch, a \<open>Processing\<close> item with a result payload.
\<close>

theorem event_with_both_fields_counterexample:
  "map status (batchItems (processBatch [''a.jpg''] exampleId
      [\<lparr> ev_index = 0, ev_total = 1, ev_name = ''a.jpg'', result_data_url = Some ''data:a'',
         ev_error = Some ''encode failed'' \<rparr>] None mounted)) = [Error]
   \<and> map resultDataUrl (batchItems (processBatch [''a.jpg''] exampleId
      [\<lparr> ev_index = 0, ev_total = 1, ev_name = ''a.jpg'', result_data_url = Some ''data:a'',
         ev_error = Some ''encode failed'' \<rparr>] None mounted)) = [Some ''data:a'']
   \<and> map status (batchItems (processBatch [''a.jpg''] exampleId
      [\<lparr> ev_index = 0, ev_total = 1, ev_name = ''a.jpg'', result_data_url = None,
         ev_error = None \<rparr>] None mounted)) = [Done]
   \<and> map resultDataUrl (batchItems (processBatch [''a.jpg''] exampleId
      [\<lparr> ev_index = 0, ev_total = 1, ev_name = ''a.jpg'', result_data_url = None,
         ev_error = None \<rparr>] None mounted)) = [None]
   \<and> map status (batchItems (run
      [BatchStart [''a.jpg''] exampleId, BatchListened [''a.jpg''] Transparent 0, Reset,
       BatchStart [''c.jpg''] exampleId,
       Progress \<lparr> ev_index = 0, ev_total = 1, ev_name = ''a.jpg'',
                  result_data_url = Some ''data:a'', ev_error = None \<rparr>,
       BatchListened [''c.jpg''] Transparent 1] mounted)) = [Processing]
   \<and> map resultDataUrl (batchItems (run
      [BatchStart [''a.jpg''] exampleId, BatchListened [''a.jpg''] Transparent 0, Reset,
       BatchStart [''c.jpg''] exampleId,
       Progress \<lparr> ev_index = 0, ev_total = 1, ev_name = ''a.jpg'',
                  result_data_url = Some ''data:a'', ev_error = None \<rparr>,
       BatchListened [''c.jpg''] Transparent 1] mounted)) = [Some ''data:a'']"
  by (simp add: app_defs)

section \<open>Failure of a single-image operation\<close>



section \<open>Change of the background\<close>

lemma bgInitRef_perform: "\<not> bgInitRef s \<Longrightarrow> \<not> bgInitRef (perform a s)"
  by (cases a)
     (auto simp: deliver_eq batchProgressHandler_def
        processSinglePath_start_def processSinglePath_settle_def
        processClipboard_start_def processClipboard_settle_def reprocessClipboard_settle_def
        reprocessClipboard_start_def processBatch_start_def listen_def
        processBatch_listened_def
        processBatch_settle_def handleReset_def setBackground_def backgroundEffect_def
        showError_timeout_def showError_def invoke_def callUnlisten_def Let_def
        split: sum.splits option.splits)

lemma bgInitRef_fold: "\<not> bgInitRef s \<Longrightarrow> \<not> bgInitRef (fold perform acts s)"
  by (induction acts arbitrary: s) (simp_all add: bgInitRef_perform)

lemma bgInitRef_run: "\<not> bgInitRef (run acts mounted)"
  unfolding run_def
  by (rule bgInitRef_fold) (simp add: mounted_def backgroundEffect_def initial_def)

lemma singleSourceRef_deliver: "singleSourceRef (deliver ev s) = singleSourceRef s"
  by (simp add: deliver_eq batchProgressHandler_def)

lemma singleSourceRef_fold_deliver: "singleSourceRef (fold deliver evs s) = singleSourceRef s"
  by (induction evs arbitrary: s) (simp_all add: singleSourceRef_deliver)

lemma bgInitRef_deliver: "bgInitRef (deliver ev s) = bgInitRef s"
  by (simp add: deliver_eq batchProgressHandler_def)

lemma bgInitRef_fold_deliver: "bgInitRef (fold deliver evs s) = bgInitRef s"
  by (induction evs arbitrary: s) (simp_all add: bgInitRef_deliver)

lemma singleSourceRef_processBatch_run:
  "singleSourceRef (processBatch_run paths gen early evs outcome s) = None"
  by (simp add: processBatch_run_def processBatch_settle_def showError_def
      singleSourceRef_fold_deliver processBatch_listened_def invoke_def processBatch_start_def
      listen_def callUnlisten_def split: option.splits)

lemma bgInitRef_processBatch_run:
  "bgInitRef (processBatch_run paths gen early evs outcome s) = bgInitRef s"
  by (simp add: processBatch_run_def processBatch_settle_def showError_def
      bgInitRef_fold_deliver processBatch_listened_def invoke_def processBatch_start_def
      listen_def callUnlisten_def split: option.splits)

lemma inferCompositeEncode_clipboard:
  "inferCompositeEncode (env\<lparr> clipboardImage := other \<rparr>) img bg =
     inferCompositeEncode env img bg"
  by (simp add: inferCompositeEncode_def split: option.splits sum.splits)

text \<open>
  C6, as the code has it. In every state in which \<open>bgInitRef\<close> is cleared (it is cleared
  at mount and stays so under every sequence of handler runs): when the mode is single
  and the remembered source has the empty path, a change of the background starts the
  clipboard reprocess, which invokes the reprocess command of the backend with the new
  background; that command recomputes the result from the cached bitmap and does not
  read the clipboard: it leaves the session, with its count of clipboard reads, as it
  was, and its result does not depend on what the clipboard holds. When the mode is
  single and the remembered source has a path, the change starts the path-based
  pipeline on that path and preview. When the mode is not single or nothing is
  remembered, the change only stores the background. A batch submission clears the
  remembered source, so a change of the background after it starts nothing. A reprocess
  that succeeds stores the new result and keeps the source of the single state.
\<close>

theorem background_change_reprocesses:
  "\<not> bgInitRef s \<Longrightarrow>
     (mode s = Single \<and> singleSourceRef s = Some src \<and> path src = [] \<longrightarrow>
        setBackground bg s = reprocessClipboard_start (s\<lparr> background := bg \<rparr>)
        \<and> invoked (setBackground bg s) = invoked s @ [ReprocessClipboardImage bg]
        \<and> clipboardCommand env (last (invoked (setBackground bg s))) sess =
            Some (reprocess env bg sess))
     \<and> (mode s = Single \<and> singleSourceRef s = Some src \<and> path src \<noteq> [] \<longrightarrow>
        setBackground bg s =
          processSinglePath_start (path src) (dataUrl src) (s\<lparr> background := bg \<rparr>)
        \<and> invoked (setBackground bg s) = invoked s @ [ProcessSingleImage (path src) bg])
     \<and> (mode s \<noteq> Single \<or> singleSourceRef s = None \<longrightarrow>
        setBackground bg s = s\<lparr> background := bg \<rparr>)
     \<and> singleSourceRef (processBatch paths gen evs outcome s) = None
     \<and> setBackground bg (processBatch paths gen evs outcome s) =
         (processBatch paths gen evs outcome s)\<lparr> background := bg \<rparr>
     \<and> singleSourceRef (processBatch_run paths gen early evs outcome s) = None
     \<and> setBackground bg (processBatch_run paths gen early evs outcome s) =
         (processBatch_run paths gen early evs outcome s)\<lparr> background := bg \<rparr>
     \<and> invoked (reprocessClipboard result s) = invoked s @ [ReprocessClipboardImage (background s)]
     \<and> (single s = Some st \<longrightarrow>
          single (reprocessClipboard (Inr r) s) =
            Some (st\<lparr> single_resultDataUrl := r, single_isProcessing := False \<rparr>))
     \<and> snd (reprocess env bg sess) = sess
     \<and> clipboardReads (snd (reprocess env bg sess)) = clipboardReads sess
     \<and> (cached sess = Some img \<longrightarrow> fst (reprocess env bg sess) = inferCompositeEncode env img bg)
     \<and> fst (reprocess (env\<lparr> clipboardImage := other \<rparr>) bg sess) = fst (reprocess env bg sess)
     \<and> clipboardReads (snd (captureAndProcess env bg' sess)) = Suc (clipboardReads sess)
     \<and> (clipboardImage env = Some img \<longrightarrow>
          cached (snd (captureAndProcess env bg' sess)) = Some img
          \<and> fst (reprocess (env\<lparr> clipboardImage := other \<rparr>) bg
                (snd (captureAndProcess env bg' sess))) = inferCompositeEncode env img bg)
     \<and> \<not> bgInitRef (run acts mounted)"
proof -
  assume init: "\<not> bgInitRef s"
  have a: "mode s = Single \<and> singleSourceRef s = Some src \<and> path src = [] \<longrightarrow>
        setBackground bg s = reprocessClipboard_start (s\<lparr> background := bg \<rparr>)
        \<and> invoked (setBackground bg s) = invoked s @ [ReprocessClipboardImage bg]
        \<and> clipboardCommand env (last (invoked (setBackground bg s))) sess =
            Some (reprocess env bg sess)"
    using init
    by (simp add: setBackground_def backgroundEffect_def reprocessClipboard_start_def invoke_def
        clipboardCommand_def)
  have b: "mode s = Single \<and> singleSourceRef s = Some src \<and> path src \<noteq> [] \<longrightarrow>
        setBackground bg s =
          processSinglePath_start (path src) (dataUrl src) (s\<lparr> background := bg \<rparr>)
        \<and> invoked (setBackground bg s) = invoked s @ [ProcessSingleImage (path src) bg]"
    using init
    by (simp add: setBackground_def backgroundEffect_def processSinglePath_start_def invoke_def)
  have c: "mode s \<noteq> Single \<or> singleSourceRef s = None \<longrightarrow>
        setBackground bg s = s\<lparr> background := bg \<rparr>"
    using init
    by (auto simp: setBackground_def backgroundEffect_def split: option.splits)
  have d: "singleSourceRef (processBatch_run paths gen early evs outcome s) = None" for early
    by (rule singleSourceRef_processBatch_run)
  have e: "setBackground bg (processBatch_run paths gen early evs outcome s) =
         (processBatch_run paths gen early evs outcome s)\<lparr> background := bg \<rparr>" for early
    using init
    by (simp add: setBackground_def backgroundEffect_def singleSourceRef_processBatch_run
        bgInitRef_processBatch_run)
  have d0: "singleSourceRef (processBatch paths gen evs outcome s) = None"
    unfolding processBatch_def by (rule d)
  have e0: "setBackground bg (processBatch paths gen evs outcome s) =
         (processBatch paths gen evs outcome s)\<lparr> background := bg \<rparr>"
    unfolding processBatch_def by (rule e)
  have f: "invoked (reprocessClipboard result s) =
         invoked s @ [ReprocessClipboardImage (background s)]"
    by (simp add: reprocessClipboard_def reprocessClipboard_start_def
        reprocessClipboard_settle_def invoke_def showError_def Let_def split: sum.splits)
  have g: "single s = Some st \<longrightarrow>
          single (reprocessClipboard (Inr r) s) =
            Some (st\<lparr> single_resultDataUrl := r, single_isProcessing := False \<rparr>)"
    by (simp add: reprocessClipboard_def reprocessClipboard_start_def
        reprocessClipboard_settle_def invoke_def)
  have h: "snd (reprocess env bg sess) = sess"
    by (simp add: reprocess_def split: option.splits)
  have i: "clipboardReads (snd (reprocess env bg sess)) = clipboardReads sess"
    by (simp add: h)
  have j: "cached sess = Some img \<longrightarrow> fst (reprocess env bg sess) = inferCompositeEncode env img bg"
    by (simp add: reprocess_def)
  have k: "fst (reprocess (env\<lparr> clipboardImage := other \<rparr>) bg sess) = fst (reprocess env bg sess)"
    by (simp add: reprocess_def inferCompositeEncode_clipboard split: option.splits)
  have l: "clipboardReads (snd (captureAndProcess env bg' sess)) = Suc (clipboardReads sess)"
    by (simp add: captureAndProcess_def Let_def split: option.splits)
  have m: "clipboardImage env = Some img \<longrightarrow>
          cached (snd (captureAndProcess env bg' sess)) = Some img
          \<and> fst (reprocess (env\<lparr> clipboardImage := other \<rparr>) bg
                (snd (captureAndProcess env bg' sess))) = inferCompositeEncode env img bg"
    by (simp add: captureAndProcess_def Let_def reprocess_def inferCompositeEncode_clipboard)
  from a b c d0 e0 d [of early] e [of early] f g h i j k l m bgInitRef_run [of acts]
  show ?thesis by blast
qed

theorem background_change_reprocesses_witness:
  "invoked (setBackground White
      (run [ClipboardStart, ClipboardSettle (Inr ''data:r'')] mounted)) =
     [ProcessClipboardImage Transparent, ReprocessClipboardImage White]
   \<and> invoked (setBackground White
      (run [SinglePathStart ''a.jpg'' ''asset://a.jpg'', SinglePathSettle (Inr ''data:r'')] mounted)) =
     [ProcessSingleImage ''a.jpg'' Transparent, ProcessSingleImage ''a.jpg'' White]
   \<and> invoked (setBackground White mounted) = []
   \<and> clipboardReads (snd (reprocess exampleCollaborators White
        (snd (captureAndProcess exampleCollaborators Transparent
           \<lparr> cached = None, clipboardReads = 0 \<rparr>)))) = 1
   \<and> fst (reprocess (exampleCollaborators\<lparr> clipboardImage := None \<rparr>) White
        (snd (captureAndProcess exampleCollaborators Transparent
           \<lparr> cached = None, clipboardReads = 0 \<rparr>))) = Inr ''data:r''"
proof -
  let ?clip = "run [ClipboardStart, ClipboardSettle (Inr ''data:r'')] mounted"
  let ?file = "run [SinglePathStart ''a.jpg'' ''asset://a.jpg'',
      SinglePathSettle (Inr ''data:r'')] mounted"
  let ?sess = "snd (captureAndProcess exampleCollaborators Transparent
      \<lparr> cached = None, clipboardReads = 0 \<rparr>)"
  have i1: "\<not> bgInitRef ?clip" and i2: "\<not> bgInitRef ?file" and i3: "\<not> bgInitRef mounted"
    by (simp_all add: app_defs)
  have h1: "mode ?clip = Single \<and> singleSourceRef ?clip = Some \<lparr> path = [], dataUrl = ''data:r'' \<rparr>
      \<and> path \<lparr> path = [], dataUrl = ''data:r'' \<rparr> = []"
    by (simp add: app_defs)
  have h2: "mode ?file = Single
      \<and> singleSourceRef ?file = Some \<lparr> path = ''a.jpg'', dataUrl = ''asset://a.jpg'' \<rparr>
      \<and> path \<lparr> path = ''a.jpg'', dataUrl = ''asset://a.jpg'' \<rparr> \<noteq> []"
    by (simp add: app_defs)
  have h3: "mode mounted \<noteq> Single \<or> singleSourceRef mounted = None"
    by (simp add: app_defs)
  have h4: "cached ?sess = Some exampleImage"
    by (simp add: captureAndProcess_def exampleCollaborators_def Let_def)
  have a: "invoked (setBackground White ?clip) = invoked ?clip @ [ReprocessClipboardImage White]"
    using background_change_reprocesses
      [OF i1, where src = "\<lparr> path = [], dataUrl = ''data:r'' \<rparr>" and bg = White] h1
    by blast
  have b: "invoked (setBackground White ?file) =
      invoked ?file @ [ProcessSingleImage
        (path \<lparr> path = ''a.jpg'', dataUrl = ''asset://a.jpg'' \<rparr>) White]"
    using background_change_reprocesses
      [OF i2, where src = "\<lparr> path = ''a.jpg'', dataUrl = ''asset://a.jpg'' \<rparr>" and bg = White] h2
    by blast
  have c: "setBackground White mounted = mounted\<lparr> background := White \<rparr>"
    using background_change_reprocesses [OF i3, where bg = White] h3
    by blast
  have d: "clipboardReads (snd (reprocess exampleCollaborators White ?sess)) =
      clipboardReads ?sess"
    using background_change_reprocesses
      [OF i3, where env = exampleCollaborators and bg = White and sess = ?sess]
    by blast
  have e: "fst (reprocess (exampleCollaborators\<lparr> clipboardImage := None \<rparr>) White ?sess) =
      inferCompositeEncode exampleCollaborators exampleImage White"
    using background_change_reprocesses
      [OF i3, where env = exampleCollaborators and bg = White and other = None
         and img = exampleImage and bg' = Transparent
         and sess = "\<lparr> cached = None, clipboardReads = 0 \<rparr>"]
    by (simp add: exampleCollaborators_def)
  have f: "inferCompositeEncode exampleCollaborators exampleImage White = Inr ''data:r''"
    by (simp add: inferCompositeEncode_def exampleCollaborators_def exampleImage_def
        composite_def)
  have g: "clipboardReads ?sess = 1"
    by (simp add: captureAndProcess_def exampleCollaborators_def Let_def)
  have "invoked ?clip = [ProcessClipboardImage Transparent]"
    and "invoked ?file = [ProcessSingleImage ''a.jpg'' Transparent]"
    and "invoked (mounted\<lparr> background := White \<rparr>) = []"
    by (simp_all add: app_defs)
  with a b c d e f g show ?thesis by simp
qed

text \<open>
  C6 as it is written fails in a state with a remembered source outside the single
  mode: the effect tests \<^verbatim>\<open>mode === "single"\<close>. A remembered clipboard source in idle
  mode is reached when the user resets while a clipboard capture is in flight and the
  capture then succeeds; a remembered path in idle mode is reached when, after that
  reset, a file is submitted and the capture then fails. The change of the background
  invokes nothing in either state.
\<close>

theorem background_change_outside_single_counterexample:
  "singleSourceRef (run [ClipboardStart, Reset, ClipboardSettle (Inr ''data:r'')] mounted) =
     Some \<lparr> path = [], dataUrl = ''data:r'' \<rparr>
   \<and> mode (run [ClipboardStart, Reset, ClipboardSettle (Inr ''data:r'')] mounted) = Idle
   \<and> invoked (run [ClipboardStart, Reset, ClipboardSettle (Inr ''data:r'')] mounted) =
       [ProcessClipboardImage Transparent]
   \<and> invoked (run [ClipboardStart, Reset, ClipboardSettle (Inr ''data:r''), SetBackground White]
        mounted) = [ProcessClipboardImage Transparent]
   \<and> singleSourceRef (run [ClipboardStart, Reset, SinglePathStart ''a.jpg'' ''asset://a.jpg'',
        ClipboardSettle (Inl (ThrownString ''no image''))] mounted) =
     Some \<lparr> path = ''a.jpg'', dataUrl = ''asset://a.jpg'' \<rparr>
   \<and> mode (run [ClipboardStart, Reset, SinglePathStart ''a.jpg'' ''asset://a.jpg'',
        ClipboardSettle (Inl (ThrownString ''no image''))] mounted) = Idle
   \<and> invoked (run [ClipboardStart, Reset, SinglePathStart ''a.jpg'' ''asset://a.jpg'',
        ClipboardSettle (Inl (ThrownString ''no image''))] mounted) =
       [ProcessClipboardImage Transparent, ProcessSingleImage ''a.jpg'' Transparent]
   \<and> invoked (run [ClipboardStart, Reset, SinglePathStart ''a.jpg'' ''asset://a.jpg'',
        ClipboardSettle (Inl (ThrownString ''no image'')), SetBackground White] mounted) =
       [ProcessClipboardImage Transparent, ProcessSingleImage ''a.jpg'' Transparent]"
  by (simp add: app_defs)

section \<open>Reset of a batch run\<close>

lemma batchItems_deliver_Nil: "batchItems s = [] \<Longrightarrow> batchItems (deliver ev s) = []"
  by (simp add: deliver_eq batchProgressHandler_def applyProgress_def)

lemma batchItems_fold_deliver_Nil:
  "batchItems s = [] \<Longrightarrow> batchItems (fold deliver evs s) = []"
  by (induction evs arbitrary: s) (simp_all add: batchItems_deliver_Nil)

lemma fold_deliver_no_listener: "listeners s = [] \<Longrightarrow> fold deliver evs s = s"
  by (induction evs) (simp_all add: deliver_eq)

lemma batchItems_handleReset: "batchItems (handleReset s) = []"
  by (simp add: handleReset_def)

lemma listeners_handleReset:
  "listeners (handleReset s) =
     (case batchUnlistenRef s of None \<Rightarrow> listeners s | Some h \<Rightarrow> removeAll h (listeners s))"
  by (simp add: handleReset_def callUnlisten_def split: option.splits)

lemma stored_only_reset:
  "stored_subscription_only s \<Longrightarrow> listeners (handleReset s) = []"
  by (cases "batchUnlistenRef s")
     (auto simp: listeners_handleReset stored_subscription_only_def removeAll_id
        filter_empty_conv removeAll_filter_not_eq)

lemma stored_only_deliver:
  "stored_subscription_only (deliver ev s) = stored_subscription_only s"
  by (simp add: deliver_eq batchProgressHandler_def stored_subscription_only_def)

lemma stored_only_fold_deliver:
  "stored_subscription_only (fold deliver evs s) = stored_subscription_only s"
  by (induction evs arbitrary: s) (simp_all add: stored_only_deliver)

lemma stored_only_start:
  "stored_subscription_only s \<Longrightarrow>
     listeners (processBatch_start paths gen s) = [nextHandle s]"
  by (cases "batchUnlistenRef s")
     (auto simp: stored_subscription_only_def processBatch_start_def listen_def
        callUnlisten_def removeAll_filter_not_eq filter_empty_conv)

lemma stored_only_processBatch_run:
  "stored_subscription_only s \<Longrightarrow>
     stored_subscription_only (processBatch_run paths gen early evs outcome s)"
proof -
  assume a: "stored_subscription_only s"
  have settle: "stored_subscription_only (processBatch_settle outcome t) =
      stored_subscription_only t" for t
    by (simp add: processBatch_settle_def showError_def stored_subscription_only_def
        split: option.splits)
  have "stored_subscription_only
      (processBatch_listened paths (background s) (nextHandle s)
         (fold deliver early (processBatch_start paths gen s)))"
    using stored_only_start [OF a, of paths gen]
    by (simp add: stored_subscription_only_def processBatch_listened_def invoke_def
        listeners_fold_deliver)
  then show ?thesis
    by (simp add: processBatch_run_def settle stored_only_fold_deliver)
qed

lemma stored_only_processBatch:
  "stored_subscription_only s \<Longrightarrow>
     stored_subscription_only (processBatch paths gen evs outcome s)"
  by (simp add: processBatch_def stored_only_processBatch_run)

text \<open>
  C7, as the code has it. Reset empties the item list and removes the subscription
  whose handle is stored. In every state the item list then stays empty whatever
  progress events arrive, so no item of the discarded list is changed. When the stored
  subscription is the only live one, which holds at mount and is kept by a batch
  submission that runs without another handler in between, no subscription is left
  after reset and every event that arrives then, before a new batch is submitted, leaves
  the whole state as it is.
\<close>

theorem reset_drops_events:
  "batchItems (handleReset s) = []
   \<and> batchItems (fold deliver evs (handleReset s)) = []
   \<and> (batchUnlistenRef s = Some h \<longrightarrow> h \<notin> set (listeners (handleReset s)))
   \<and> (stored_subscription_only s \<longrightarrow>
        listeners (handleReset s) = []
        \<and> fold deliver evs (handleReset s) = handleReset s)
   \<and> stored_subscription_only mounted
   \<and> (stored_subscription_only s \<longrightarrow>
        stored_subscription_only (processBatch paths gen evs' outcome s))"
proof -
  have a: "batchItems (fold deliver evs (handleReset s)) = []"
    by (rule batchItems_fold_deliver_Nil) (rule batchItems_handleReset)
  have b: "batchUnlistenRef s = Some h \<longrightarrow> h \<notin> set (listeners (handleReset s))"
    by (simp add: listeners_handleReset)
  have c: "stored_subscription_only s \<longrightarrow>
        listeners (handleReset s) = [] \<and> fold deliver evs (handleReset s) = handleReset s"
    by (simp add: stored_only_reset fold_deliver_no_listener)
  have d: "stored_subscription_only mounted"
    by (simp add: stored_subscription_only_def mounted_def backgroundEffect_def initial_def)
  from a b c d batchItems_handleReset [of s] stored_only_processBatch [of s paths gen evs' outcome]
  show ?thesis by blast
qed

theorem reset_drops_events_witness:
  "listeners (processBatch [''a.jpg'', ''b.png''] exampleId [] None mounted) = [0]
   \<and> listeners (handleReset (processBatch [''a.jpg'', ''b.png''] exampleId [] None mounted)) = []
   \<and> fold deliver
        [\<lparr> ev_index = 0, ev_total = 2, ev_name = ''a.jpg'', result_data_url = Some ''data:a'',
           ev_error = None \<rparr>]
        (handleReset (processBatch [''a.jpg'', ''b.png''] exampleId [] None mounted)) =
       handleReset (processBatch [''a.jpg'', ''b.png''] exampleId [] None mounted)"
  using reset_drops_events
    [of "processBatch [''a.jpg'', ''b.png''] exampleId [] None mounted"
        "[\<lparr> ev_index = 0, ev_total = 2, ev_name = ''a.jpg'', result_data_url = Some ''data:a'',
           ev_error = None \<rparr>]" 0 "[]" exampleId "[]" None]
    reset_drops_events
    [of mounted "[]" 0 "[''a.jpg'', ''b.png'']" exampleId "[]" None]
  by (simp add: app_defs stored_subscription_only_def)

text \<open>
  C7 as it is written fails for an event that arrives after reset and after the next
  batch was submitted: the new subscription listens to the same event name, and the
  event carries no mark of its run. The event reported for \<open>a.jpg\<close> of the discarded
  run marks \<open>c.jpg\<close> of the new run \<open>Done\<close> and gives it the payload of \<open>a.jpg\<close>.
\<close>

theorem stale_event_counterexample:
  "batchItems (run [BatchStart [''a.jpg'', ''b.png''] exampleId,
                   BatchListened [''a.jpg'', ''b.png''] Transparent 0, Reset] mounted) = []
   \<and> map name (batchItems (run
        [BatchStart [''a.jpg'', ''b.png''] exampleId,
         BatchListened [''a.jpg'', ''b.png''] Transparent 0, Reset,
         BatchStart [''c.jpg'', ''d.png''] exampleId,
         BatchListened [''c.jpg'', ''d.png''] Transparent 1] mounted)) = [''c.jpg'', ''d.png'']
   \<and> map status (batchItems (run
        [BatchStart [''a.jpg'', ''b.png''] exampleId,
         BatchListened [''a.jpg'', ''b.png''] Transparent 0, Reset,
         BatchStart [''c.jpg'', ''d.png''] exampleId,
         BatchListened [''c.jpg'', ''d.png''] Transparent 1,
         Progress \<lparr> ev_index = 0, ev_total = 2, ev_name = ''a.jpg'',
                    result_data_url = Some ''data:a'', ev_error = None \<rparr>] mounted))
       = [Done, Processing]
   \<and> map resultDataUrl (batchItems (run
        [BatchStart [''a.jpg'', ''b.png''] exampleId,
         BatchListened [''a.jpg'', ''b.png''] Transparent 0, Reset,
         BatchStart [''c.jpg'', ''d.png''] exampleId,
         BatchListened [''c.jpg'', ''d.png''] Transparent 1,
         Progress \<lparr> ev_index = 0, ev_total = 2, ev_name = ''a.jpg'',
                    result_data_url = Some ''data:a'', ev_error = None \<rparr>] mounted))
       = [Some ''data:a'', None]"
  by (simp add: app_defs)

section \<open>Compositing on a transparent background\<close>

text \<open>
  C8. For a pixel buffer and a mask of the same width and height, each holding
  \<open>width \<times> height\<close> values, compositing with the \<open>Transparent\<close> background succeeds
  and returns a buffer of the same dimensions in which every pixel has the red, green
  and blue of the source pixel and the mask value of that position as its alpha.
\<close>

theorem composite_transparent:
  "width buf = mask_width msk \<Longrightarrow> height buf = mask_height msk \<Longrightarrow>
   wf_pixels buf \<Longrightarrow> wf_mask msk \<Longrightarrow>
     (\<exists>out. composite buf msk Transparent = Inr out
        \<and> width out = width buf \<and> height out = height buf
        \<and> length (pixels out) = length (pixels buf)
        \<and> (\<forall>i<length (pixels buf).
              red (pixels out ! i) = red (pixels buf ! i)
              \<and> green (pixels out ! i) = green (pixels buf ! i)
              \<and> blue (pixels out ! i) = blue (pixels buf ! i)
              \<and> alpha (pixels out ! i) = mask_values msk ! i))"
  by (simp add: composite_def wf_pixels_def wf_mask_def)

theorem composite_transparent_witness:
  "composite
     \<lparr> width = 2, height = 1,
       pixels = [\<lparr> red = 10, green = 20, blue = 30, alpha = 255 \<rparr>,
                 \<lparr> red = 40, green = 50, blue = 60, alpha = 255 \<rparr>] \<rparr>
     \<lparr> mask_width = 2, mask_height = 1, mask_values = [0, 200] \<rparr> Transparent =
   Inr \<lparr> width = 2, height = 1,
         pixels = [\<lparr> red = 10, green = 20, blue = 30, alpha = 0 \<rparr>,
                   \<lparr> red = 40, green = 50, blue = 60, alpha = 200 \<rparr>] \<rparr>"
  using composite_transparent
    [of "\<lparr> width = 2, height = 1,
       pixels = [\<lparr> red = 10, green = 20, blue = 30, alpha = 255 \<rparr>,
                 \<lparr> red = 40, green = 50, blue = 60, alpha = 255 \<rparr>] \<rparr>"
        "\<lparr> mask_width = 2, mask_height = 1, mask_values = [0, 200] \<rparr>"]
  by (simp add: composite_def wf_pixels_def wf_mask_def)

section \<open>Suggested file names\<close>

lemma map_name_processBatch:
  "map name (batchItems (processBatch paths gen evs outcome s)) = map final_segment paths"
  by (simp only: batchItems_processBatch map_name_fold map_name_dispatched map_newItem_name)

text \<open>
  C9. When a single result is saved, the dialog opens on the final segment of the
  source path without its extension, followed by \<open>_nobg.png\<close>; a clipboard result
  (empty source path) gives \<open>output_nobg.png\<close>. When a batch item is saved, the dialog
  opens on the item's name without its extension, followed by \<open>_nobg.png\<close>, and the
  name of an item of a run is the final segment of its source path. Stripping the
  extension removes the last dot and the non-empty text after it, and leaves a name
  without dot, or with nothing after its last dot, as it is.
\<close>

theorem save_default_path:
  "(single s = Some st \<and> single_resultDataUrl st \<noteq> [] \<longrightarrow>
      saveDialogs (handleSaveSingle dlg outcome s) =
        saveDialogs s @
          [(if single_sourcePath st = [] then ''output''
            else replace_ext (final_segment (single_sourcePath st))) @ ''_nobg.png''])
   \<and> (resultDataUrl item = Some payload \<and> payload \<noteq> [] \<longrightarrow>
      saveDialogs (handleSaveOne item dlg outcome s) =
        saveDialogs s @ [replace_ext (name item) @ ''_nobg.png''])
   \<and> map name (batchItems (processBatch paths gen evs batch_outcome s)) =
       map final_segment paths
   \<and> (ext \<noteq> [] \<and> CHR ''.'' \<notin> set ext \<longrightarrow> replace_ext (stem @ CHR ''.'' # ext) = stem)
   \<and> (CHR ''.'' \<notin> set nm \<longrightarrow> replace_ext nm = nm)
   \<and> replace_ext (nm @ ''.'') = nm @ ''.''"
  by (simp add: handleSaveSingle_def handleSaveOne_def saveDialogs_saveWithDialog
      pop_split_seps replace_ext_strip replace_ext_nodot replace_ext_trailing_dot
      map_name_processBatch)

theorem save_default_path_witness:
  "saveDialogs (handleSaveSingle (Inr None) None
      (mounted\<lparr> single := Some \<lparr> single_sourceDataUrl = ''asset://a'',
          single_sourcePath = ''C:'' @ [CHR 0x5C] @ ''in/a.jpg'',
          single_resultDataUrl = ''data:r'', single_isProcessing = False \<rparr> \<rparr>)) = [''a_nobg.png'']
   \<and> saveDialogs (handleSaveSingle (Inr None) None
      (mounted\<lparr> single := Some \<lparr> single_sourceDataUrl = ''data:r'', single_sourcePath = [],
          single_resultDataUrl = ''data:r'', single_isProcessing = False \<rparr> \<rparr>)) = [''output_nobg.png'']
   \<and> saveDialogs (handleSaveOne
      \<lparr> item_id = ''1'', name = ''b.tar.gz'', sourcePath = Some ''x/b.tar.gz'', sourceDataUrl = None,
        status = Done, resultDataUrl = Some ''data:r'', error = None \<rparr>
      (Inr None) None mounted) = [''b.tar_nobg.png'']
   \<and> replace_ext ''a.jpg'' = ''a''
   \<and> replace_ext ''noext'' = ''noext''"
  using save_default_path
    [of "mounted\<lparr> single := Some \<lparr> single_sourceDataUrl = ''asset://a'',
          single_sourcePath = ''C:'' @ [CHR 0x5C] @ ''in/a.jpg'',
          single_resultDataUrl = ''data:r'', single_isProcessing = False \<rparr> \<rparr>"
        "\<lparr> single_sourceDataUrl = ''asset://a'',
          single_sourcePath = ''C:'' @ [CHR 0x5C] @ ''in/a.jpg'',
          single_resultDataUrl = ''data:r'', single_isProcessing = False \<rparr>"
        "Inr None" None
        "\<lparr> item_id = ''1'', name = ''b.tar.gz'', sourcePath = Some ''x/b.tar.gz'', sourceDataUrl = None,
        status = Done, resultDataUrl = Some ''data:r'', error = None \<rparr>"
        "''data:r''" "[''x/b.tar.gz'']" exampleId "[]" None "''jpg''" "''a''" "''noext''"]
    save_default_path
    [of "mounted\<lparr> single := Some \<lparr> single_sourceDataUrl = ''data:r'', single_sourcePath = [],
          single_resultDataUrl = ''data:r'', single_isProcessing = False \<rparr> \<rparr>"
        "\<lparr> single_sourceDataUrl = ''data:r'', single_sourcePath = [],
          single_resultDataUrl = ''data:r'', single_isProcessing = False \<rparr>"
        "Inr None" None
        "\<lparr> item_id = ''1'', name = ''b.tar.gz'', sourcePath = Some ''x/b.tar.gz'', sourceDataUrl = None,
        status = Done, resultDataUrl = Some ''data:r'', error = None \<rparr>"
        "''data:r''" "[''x/b.tar.gz'']" exampleId "[]" None "''jpg''" "''a''" "''noext''"]
  by (simp add: app_defs)

end
